theory Spec2Isabelle
  imports Complex_Main
begin

section \<open>Event Data Recorder: a shallow embedding\<close>

text \<open>
  The Python sources modelled here are \<^verbatim>\<open>src/edr/edr_buffer.py\<close>,
  \<^verbatim>\<open>src/edr/edr_sensor.py\<close>, \<^verbatim>\<open>src/edr/edr.py\<close> and
  \<^verbatim>\<open>src/carlasim/utilities/separating_axis_theorem.py\<close>.

  Conventions of the model:
  \<^item> a Python \<^verbatim>\<open>float\<close> is a \<^typ>\<open>real\<close> that is a double (\<open>is_double\<close>); a decimal
    such as \<^verbatim>\<open>0.1\<close> stands for the double nearest to it, \<open>fl (1 / 10)\<close>. The
    recorder's arithmetic rounds every result to the nearest double, ties to even
    (\<open>float_add\<close>, \<open>float_sub\<close>, \<open>float_mul\<close>, \<open>float_div\<close>); comparisons are exact.
    Infinities, NaN, the sign of zero and the loss of precision below \<open>2 ^ -1022\<close> are
    not modelled. The polygon test of the last part is stated over exact reals;
  \<^item> an attribute that may hold \<^verbatim>\<open>None\<close> is an \<^typ>\<open>'a option\<close>;
  \<^item> an object with mutable attributes is a record that is passed in and returned;
  \<^item> an exception is a value of type \<open>error\<close>; where the object has already been
    mutated when the exception leaves the method, the mutated state is returned with it;
  \<^item> the file system is a log of the operations that succeeded, oldest first, and a
    predicate \<open>io\<close> says which operations the environment lets succeed.
\<close>

subsection \<open>Errors, outcomes and the file system\<close>

datatype error = TypeError | ValueError | AssertionError | OSError | OverflowError

datatype 's outcome = Return 's | Raise error 's

datatype 'd effect =
    MakeDirs string
  | WriteFile string string
  | SaveToDisk 'd string

type_synonym 'd io = "'d effect \<Rightarrow> bool"

definition perform :: "'d io \<Rightarrow> 'd effect \<Rightarrow> 'd effect list \<Rightarrow> error + 'd effect list" where
  "perform io eff fs = (if io eff then Inr (fs @ [eff]) else Inl OSError)"

text \<open>\<^verbatim>\<open>os.path.join\<close> of \<^verbatim>\<open>posixpath\<close>: a component that starts with the
  separator replaces what came before; otherwise it is appended, with a separator unless
  the path so far is empty or already ends with one.\<close>

definition path_join2 :: "string \<Rightarrow> string \<Rightarrow> string" where
  "path_join2 path b =
     (if b \<noteq> [] \<and> hd b = CHR ''/'' then b
      else if path = [] \<or> last path = CHR ''/'' then path @ b
      else path @ ''/'' @ b)"

definition os_path_join :: "string \<Rightarrow> string list \<Rightarrow> string" where
  "os_path_join a ps = foldl path_join2 a ps"

subsection \<open>Double-precision arithmetic\<close>

text \<open>Rounding a real to the nearest integer, ties to the even one.\<close>

definition round_half_even :: "real \<Rightarrow> int" where
  "round_half_even x =
     (let f = \<lfloor>x\<rfloor>; r = x - of_int f in
      if r < 1 / 2 then f
      else if 1 / 2 < r then f + 1
      else if even f then f else f + 1)"

text \<open>The number of binary digits of a natural number (\<^verbatim>\<open>int.bit_length\<close>), and the
  powers of two with an integer exponent.\<close>

fun bit_length :: "nat \<Rightarrow> nat" where
  "bit_length n = (if n = 0 then 0 else Suc (bit_length (n div 2)))"

declare bit_length.simps [simp del]

definition pow2 :: "int \<Rightarrow> real" where
  "pow2 s = (if 0 \<le> s then 2 ^ nat s else 1 / 2 ^ nat (- s))"

text \<open>A double has a significand of 53 binary digits. \<open>binade_shift x\<close> is the power of two
  that brings \<open>\<bar>x\<bar>\<close> between \<open>2 ^ 52\<close> and \<open>2 ^ 53\<close>; \<open>fl x\<close> rounds the shifted
  value to an integer and shifts back: the double nearest to \<open>x\<close>.\<close>

definition binade_shift :: "real \<Rightarrow> int" where
  "binade_shift x =
     (if 1 \<le> \<bar>x\<bar> then 53 - int (bit_length (nat \<lfloor>\<bar>x\<bar>\<rfloor>))
      else 52 + int (bit_length (nat \<lfloor>1 / \<bar>x\<bar>\<rfloor>)))"

definition fl :: "real \<Rightarrow> real" where
  "fl x =
     (if x = 0 then 0
      else let s = binade_shift x
           in of_int (round_half_even (x * pow2 s)) * pow2 (- s))"

definition is_double :: "real \<Rightarrow> bool" where
  "is_double x = (fl x = x)"

definition float_add :: "real \<Rightarrow> real \<Rightarrow> real" where
  "float_add x y = fl (x + y)"

definition float_sub :: "real \<Rightarrow> real \<Rightarrow> real" where
  "float_sub x y = fl (x - y)"

definition float_mul :: "real \<Rightarrow> real \<Rightarrow> real" where
  "float_mul x y = fl (x * y)"

definition float_div :: "real \<Rightarrow> real \<Rightarrow> real" where
  "float_div x y = fl (x / y)"

subsection \<open>Python built-ins used by the buffer\<close>

text \<open>\<^verbatim>\<open>int(x)\<close> on a float truncates towards zero.\<close>

definition py_int :: "real \<Rightarrow> int" where
  "py_int x = (if 0 \<le> x then \<lfloor>x\<rfloor> else \<lceil>x\<rceil>)"

text \<open>\<^verbatim>\<open>collections.deque\<close>: \<open>maxlen = None\<close> is the unbounded deque. The constructor
  converts \<open>maxlen\<close> to a C \<^verbatim>\<open>ssize_t\<close> (\<^verbatim>\<open>OverflowError\<close> outside 64 bits) and then
  refuses a negative one. \<^verbatim>\<open>append\<close> adds on the right and, when the length then
  exceeds \<open>maxlen\<close>, pops one item on the left.\<close>

definition ssize_max :: int where
  "ssize_max = 2 ^ 63 - 1"

record 'a deque =
  maxlen :: "nat option"
  items :: "'a list"

definition deque_new :: "int option \<Rightarrow> error + 'a deque" where
  "deque_new m =
     (case m of
        None \<Rightarrow> Inr \<lparr>maxlen = None, items = []\<rparr>
      | Some n \<Rightarrow> if n < - ssize_max - 1 \<or> ssize_max < n then Inl OverflowError
                  else if n < 0 then Inl ValueError
                  else Inr \<lparr>maxlen = Some (nat n), items = []\<rparr>)"

definition deque_append :: "'a deque \<Rightarrow> 'a \<Rightarrow> 'a deque" where
  "deque_append d x =
     (let ys = items d @ [x] in
      case maxlen d of
        None \<Rightarrow> d\<lparr>items := ys\<rparr>
      | Some m \<Rightarrow> if m < length ys then d\<lparr>items := tl ys\<rparr> else d\<lparr>items := ys\<rparr>)"

definition deque_clear :: "'a deque \<Rightarrow> 'a deque" where
  "deque_clear d = d\<lparr>items := []\<rparr>"

subsection \<open>EDRBuffer\<close>

record 'd EDRBuffer =
  sensor_type :: string
  sensor_id :: string
  preevent_time :: real
  postevent_time :: real
  max_sample_rate :: real
  sample_interval :: real
  preevent_buffer :: "(real \<times> 'd) deque"
  postevent_buffer :: "(real \<times> 'd) deque"
  event_timestamp :: "real option"
  start_timestamp :: "real option"
  end_timestamp :: "real option"
  next_timestamp :: "real option"
  saving :: bool

text \<open>\<^verbatim>\<open>EDRBuffer.__init__\<close>. The only statement that can raise is the construction of
  the bounded deque.\<close>

definition EDRBuffer_init ::
  "string \<Rightarrow> string \<Rightarrow> real \<Rightarrow> real \<Rightarrow> real \<Rightarrow> error + 'd EDRBuffer" where
  "EDRBuffer_init sensor_type' sensor_id' preevent_time' postevent_time' max_sample_rate' =
     (let preevent_samples = py_int (float_mul preevent_time' max_sample_rate') in
      case deque_new (Some preevent_samples) of
        Inl e \<Rightarrow> Inl e
      | Inr pre \<Rightarrow>
          Inr \<lparr>sensor_type = sensor_type',
               sensor_id = sensor_id',
               preevent_time = preevent_time',
               postevent_time = postevent_time',
               max_sample_rate = max_sample_rate',
               sample_interval =
                 (if max_sample_rate' \<le> 0 then 1 else float_div 1 max_sample_rate'),
               preevent_buffer = pre,
               postevent_buffer = \<lparr>maxlen = None, items = []\<rparr>,
               event_timestamp = None,
               start_timestamp = None,
               end_timestamp = None,
               next_timestamp = None,
               saving = False\<rparr>)"

definition EDRBuffer_clear :: "'d EDRBuffer \<Rightarrow> 'd EDRBuffer" where
  "EDRBuffer_clear b =
     b\<lparr>preevent_buffer := deque_clear (preevent_buffer b),
       postevent_buffer := deque_clear (postevent_buffer b),
       event_timestamp := None,
       start_timestamp := None,
       end_timestamp := None,
       next_timestamp := None\<rparr>"

text \<open>\<^verbatim>\<open>EDRBuffer.on_data\<close>: three guarded early returns, then the sample goes to the
  ring before a trigger and to the post-event queue after one.\<close>

definition EDRBuffer_on_data :: "'d EDRBuffer \<Rightarrow> real \<Rightarrow> 'd \<Rightarrow> 'd EDRBuffer" where
  "EDRBuffer_on_data b timestamp data =
     (if saving b then b
      else if (case end_timestamp b of None \<Rightarrow> False | Some e \<Rightarrow> e < timestamp) then b
      else if (case next_timestamp b of None \<Rightarrow> False | Some n \<Rightarrow> timestamp < n) then b
      else
        let b1 = b\<lparr>next_timestamp := Some (float_add timestamp (sample_interval b))\<rparr>;
            item = (timestamp, data)
        in case event_timestamp b1 of
             None \<Rightarrow> b1\<lparr>preevent_buffer := deque_append (preevent_buffer b1) item\<rparr>
           | Some _ \<Rightarrow> b1\<lparr>postevent_buffer := deque_append (postevent_buffer b1) item\<rparr>)"

text \<open>\<^verbatim>\<open>EDRBuffer.on_event_trigger\<close>: the assertion fails before anything is
  written.\<close>

definition EDRBuffer_on_event_trigger :: "'d EDRBuffer \<Rightarrow> real \<Rightarrow> error + 'd EDRBuffer" where
  "EDRBuffer_on_event_trigger b timestamp =
     (if event_timestamp b \<noteq> None then Inl AssertionError
      else Inr (b\<lparr>event_timestamp := Some timestamp,
                  start_timestamp := Some (float_sub timestamp (preevent_time b)),
                  end_timestamp := Some (float_add timestamp (postevent_time b))\<rparr>))"

text \<open>Feeding a sequence of samples, one \<^verbatim>\<open>on_data\<close> call each.\<close>

definition feed :: "'d EDRBuffer \<Rightarrow> (real \<times> 'd) list \<Rightarrow> 'd EDRBuffer" where
  "feed b samples = foldl (\<lambda>b' s. EDRBuffer_on_data b' (fst s) (snd s)) b samples"

subsection \<open>Number formatting\<close>

text \<open>The format specifications \<^verbatim>\<open>{:19.8f}\<close> and \<^verbatim>\<open>{:+010.8f}\<close>: eight digits after the
  point, the value rounded half-to-even; the first pads with spaces on the left to 19
  characters and prints a sign only for a negative number, the second always prints a
  sign and pads with zeros after it to 10 characters.\<close>

definition digit_char :: "nat \<Rightarrow> char" where
  "digit_char n = ''0123456789'' ! n"

fun str_nat :: "nat \<Rightarrow> string" where
  "str_nat n = (if n < 10 then [digit_char n] else str_nat (n div 10) @ [digit_char (n mod 10)])"

declare str_nat.simps [simp del]

definition fixed8 :: "real \<Rightarrow> string" where
  "fixed8 x =
     (let n = nat (round_half_even (\<bar>x\<bar> * 10 ^ 8));
          fp = str_nat (n mod 10 ^ 8)
      in str_nat (n div 10 ^ 8) @ ''.'' @ replicate (8 - length fp) (CHR ''0'') @ fp)"

definition format_19_8f :: "real \<Rightarrow> string" where
  "format_19_8f x =
     (let s = (if x < 0 then ''-'' else []) @ fixed8 x
      in replicate (19 - length s) (CHR '' '') @ s)"

definition format_plus_010_8f :: "real \<Rightarrow> string" where
  "format_plus_010_8f x =
     (let sign = (if x < 0 then ''-'' else ''+''); ds = fixed8 x
      in sign @ replicate (10 - (length sign + length ds)) (CHR ''0'') @ ds)"

subsection \<open>Saving a buffer\<close>

text \<open>Comparing a float with \<^verbatim>\<open>None\<close> raises \<^verbatim>\<open>TypeError\<close>.\<close>

definition py_ge :: "real \<Rightarrow> real option \<Rightarrow> error + bool" where
  "py_ge t bound = (case bound of None \<Rightarrow> Inl TypeError | Some l \<Rightarrow> Inr (l \<le> t))"

definition py_le :: "real \<Rightarrow> real option \<Rightarrow> error + bool" where
  "py_le t bound = (case bound of None \<Rightarrow> Inl TypeError | Some l \<Rightarrow> Inr (t \<le> l))"

text \<open>The two lines of \<^verbatim>\<open>_save_data_item\<close> that build the file name.\<close>

definition frame_filename :: "string \<Rightarrow> real \<Rightarrow> real \<Rightarrow> string \<Rightarrow> string" where
  "frame_filename sid timestamp offset extn =
     (let filename = (if sid \<noteq> [] then sid @ ''_'' else [])
      in filename @ format_19_8f timestamp @ ''_'' @ format_plus_010_8f offset @ extn)"

text \<open>\<^verbatim>\<open>EDRBuffer._save_data_item\<close>: the subtraction raises when no event has been
  recorded; the payload saves itself.\<close>

definition EDRBuffer_save_data_item ::
  "'d io \<Rightarrow> 'd EDRBuffer \<Rightarrow> real \<times> 'd \<Rightarrow> string \<Rightarrow> string \<Rightarrow> 'd effect list
     \<Rightarrow> error + 'd effect list" where
  "EDRBuffer_save_data_item io b item path extn fs =
     (case event_timestamp b of
        None \<Rightarrow> Inl TypeError
      | Some ev \<Rightarrow>
          let offset = float_sub (fst item) ev;
              filename = frame_filename (sensor_id b) (fst item) offset extn;
              frame_path = os_path_join path [filename]
          in perform io (SaveToDisk (snd item) frame_path) fs)"

text \<open>One of the two loops of \<^verbatim>\<open>save_data\<close>; \<open>keep\<close> is the loop's test on the
  timestamp. The files written before an exception stay written.\<close>

fun save_items ::
  "'d io \<Rightarrow> 'd EDRBuffer \<Rightarrow> (real \<Rightarrow> error + bool) \<Rightarrow> string \<Rightarrow> string \<Rightarrow> (real \<times> 'd) list
     \<Rightarrow> 'd effect list \<Rightarrow> 'd effect list outcome" where
  "save_items io b keep path extn [] fs = Return fs"
| "save_items io b keep path extn (item # rest) fs =
     (case keep (fst item) of
        Inl e \<Rightarrow> Raise e fs
      | Inr False \<Rightarrow> save_items io b keep path extn rest fs
      | Inr True \<Rightarrow>
          (case EDRBuffer_save_data_item io b item path extn fs of
             Inl e \<Rightarrow> Raise e fs
           | Inr fs' \<Rightarrow> save_items io b keep path extn rest fs'))"

text \<open>\<^verbatim>\<open>EDRBuffer.save_data\<close>. There is no \<^verbatim>\<open>try\<close> in the method: an exception
  leaves it with the attributes as they are at that point.\<close>

definition EDRBuffer_save_data ::
  "'d io \<Rightarrow> 'd EDRBuffer \<Rightarrow> string \<Rightarrow> string \<Rightarrow> 'd effect list
     \<Rightarrow> ('d EDRBuffer \<times> 'd effect list) outcome" where
  "EDRBuffer_save_data io b base_path extn fs =
     (let b1 = b\<lparr>saving := True\<rparr>;
          path = os_path_join base_path [sensor_type b1, sensor_id b1]
      in case perform io (MakeDirs path) fs of
           Inl e \<Rightarrow> Raise e (b1, fs)
         | Inr fs1 \<Rightarrow>
             (case save_items io b1 (\<lambda>t. py_ge t (start_timestamp b1)) path extn
                     (items (preevent_buffer b1)) fs1 of
                Raise e fs2 \<Rightarrow> Raise e (b1, fs2)
              | Return fs2 \<Rightarrow>
                  (case save_items io b1 (\<lambda>t. py_le t (end_timestamp b1)) path extn
                          (items (postevent_buffer b1)) fs2 of
                     Raise e fs3 \<Rightarrow> Raise e (b1, fs3)
                   | Return fs3 \<Rightarrow> Return (b1\<lparr>saving := False\<rparr>, fs3))))"

subsection \<open>EDRSensor\<close>

text \<open>The base class of \<^verbatim>\<open>src/edr/edr_sensor.py\<close>. Its \<^verbatim>\<open>sensor_type\<close> and
  \<^verbatim>\<open>sensor_id\<close> are the ones it hands to its buffer and are read from there; the
  parent actor and the simulator's sensor handle play no part in recording.\<close>

record 'd EDRSensor =
  edr_buffer :: "'d EDRBuffer"
  ext :: string

definition EDRSensor_init ::
  "real \<Rightarrow> real \<Rightarrow> real \<Rightarrow> string \<Rightarrow> string \<Rightarrow> error + 'd EDRSensor" where
  "EDRSensor_init preevent_time' postevent_time' max_sample_rate' sensor_type' sensor_id' =
     (case EDRBuffer_init sensor_type' sensor_id' preevent_time' postevent_time' max_sample_rate' of
        Inl e \<Rightarrow> Inl e
      | Inr b \<Rightarrow> Inr \<lparr>edr_buffer = b, ext = []\<rparr>)"

definition EDRSensor_clear_event :: "'d EDRSensor \<Rightarrow> 'd EDRSensor" where
  "EDRSensor_clear_event s = s\<lparr>edr_buffer := EDRBuffer_clear (edr_buffer s)\<rparr>"

definition EDRSensor_on_event_trigger :: "'d EDRSensor \<Rightarrow> real \<Rightarrow> error + 'd EDRSensor" where
  "EDRSensor_on_event_trigger s timestamp =
     (case EDRBuffer_on_event_trigger (edr_buffer s) timestamp of
        Inl e \<Rightarrow> Inl e
      | Inr b \<Rightarrow> Inr (s\<lparr>edr_buffer := b\<rparr>))"

definition EDRSensor_save_data ::
  "'d io \<Rightarrow> 'd EDRSensor \<Rightarrow> string \<Rightarrow> 'd effect list
     \<Rightarrow> ('d EDRSensor \<times> 'd effect list) outcome" where
  "EDRSensor_save_data io s path fs =
     (case EDRBuffer_save_data io (edr_buffer s) path (ext s) fs of
        Raise e (b, fs') \<Rightarrow> Raise e (s\<lparr>edr_buffer := b\<rparr>, fs')
      | Return (b, fs') \<Rightarrow> Return (s\<lparr>edr_buffer := b\<rparr>, fs'))"

subsection \<open>EDR\<close>

record 'd EDR =
  sensors :: "'d EDRSensor list"
  triggered :: bool
  edr_event_timestamp :: "real option"
  reason :: string

definition EDR_init :: "'d EDR" where
  "EDR_init = \<lparr>sensors = [], triggered = False, edr_event_timestamp = None, reason = []\<rparr>"

definition has_triggered :: "'d EDR \<Rightarrow> bool" where
  "has_triggered e = triggered e"

definition add_sensor :: "'d EDR \<Rightarrow> 'd EDRSensor \<Rightarrow> 'd EDR" where
  "add_sensor e s = e\<lparr>sensors := sensors e @ [s]\<rparr>"

definition EDR_clear_event :: "'d EDR \<Rightarrow> 'd EDR" where
  "EDR_clear_event e =
     (if \<not> has_triggered e then e
      else e\<lparr>sensors := map EDRSensor_clear_event (sensors e),
             edr_event_timestamp := None,
             triggered := False,
             reason := []\<rparr>)"

definition EDR_clear :: "'d EDR \<Rightarrow> 'd EDR" where
  "EDR_clear e = EDR_clear_event (e\<lparr>sensors := []\<rparr>)"

text \<open>The loop of \<^verbatim>\<open>EDR.on_event_trigger\<close> over the sensors: a failed assertion in
  one sensor's buffer leaves the sensors before it triggered and the rest untouched.\<close>

fun trigger_sensors :: "real \<Rightarrow> 'd EDRSensor list \<Rightarrow> 'd EDRSensor list outcome" where
  "trigger_sensors ts [] = Return []"
| "trigger_sensors ts (s # ss) =
     (case EDRSensor_on_event_trigger s ts of
        Inl e \<Rightarrow> Raise e (s # ss)
      | Inr s' \<Rightarrow>
          (case trigger_sensors ts ss of
             Return ss' \<Rightarrow> Return (s' # ss')
           | Raise e ss' \<Rightarrow> Raise e (s' # ss')))"

text \<open>\<^verbatim>\<open>EDR.on_event_trigger\<close>; \<open>now\<close> is what \<^verbatim>\<open>time.time()\<close> returns.\<close>

definition EDR_on_event_trigger :: "'d EDR \<Rightarrow> real \<Rightarrow> string \<Rightarrow> 'd EDR outcome" where
  "EDR_on_event_trigger e now reason' =
     (if has_triggered e then Return e
      else
        let e1 = e\<lparr>triggered := True, edr_event_timestamp := Some now, reason := reason'\<rparr>
        in case trigger_sensors now (sensors e1) of
             Return ss \<Rightarrow> Return (e1\<lparr>sensors := ss\<rparr>)
           | Raise err ss \<Rightarrow> Raise err (e1\<lparr>sensors := ss\<rparr>))"

text \<open>The loop of \<^verbatim>\<open>EDR.save_data\<close> over the sensors, in list order.\<close>

fun save_sensors ::
  "'d io \<Rightarrow> string \<Rightarrow> 'd EDRSensor list \<Rightarrow> 'd effect list
     \<Rightarrow> ('d EDRSensor list \<times> 'd effect list) outcome" where
  "save_sensors io path [] fs = Return ([], fs)"
| "save_sensors io path (s # ss) fs =
     (case EDRSensor_save_data io s path fs of
        Raise e (s', fs') \<Rightarrow> Raise e (s' # ss, fs')
      | Return (s', fs') \<Rightarrow>
          (case save_sensors io path ss fs' of
             Return (ss', fs'') \<Rightarrow> Return (s' # ss', fs'')
           | Raise e (ss', fs'') \<Rightarrow> Raise e (s' # ss', fs'')))"

text \<open>\<^verbatim>\<open>EDR.save_data\<close>. The parameter \<open>date_time\<close> stands for
  \<^verbatim>\<open>datetime.datetime.fromtimestamp(t).strftime("%Y-%m-%d-%H-%M-%S")\<close>, which depends on
  the local time zone and raises for a timestamp outside the supported years;
  \<^verbatim>\<open>fromtimestamp(None)\<close> raises \<^verbatim>\<open>TypeError\<close>.\<close>

definition EDR_save_data ::
  "(real \<Rightarrow> error + string) \<Rightarrow> 'd io \<Rightarrow> 'd EDR \<Rightarrow> string \<Rightarrow> 'd effect list
     \<Rightarrow> ('d EDR \<times> 'd effect list) outcome" where
  "EDR_save_data date_time io e base_path fs =
     (case edr_event_timestamp e of
        None \<Rightarrow> Raise TypeError (e, fs)
      | Some ts \<Rightarrow>
          (case date_time ts of
             Inl err \<Rightarrow> Raise err (e, fs)
           | Inr dt \<Rightarrow>
               let path = os_path_join base_path [dt] in
               (case perform io (MakeDirs path) fs of
                  Inl err \<Rightarrow> Raise err (e, fs)
                | Inr fs1 \<Rightarrow>
                    let reason_filepath = os_path_join path [''reason.txt''] in
                    (case perform io (WriteFile reason_filepath (reason e)) fs1 of
                       Inl err \<Rightarrow> Raise err (e, fs1)
                     | Inr fs2 \<Rightarrow>
                         (case save_sensors io path (sensors e) fs2 of
                            Raise err (ss, fs3) \<Rightarrow> Raise err (e\<lparr>sensors := ss\<rparr>, fs3)
                          | Return (ss, fs3) \<Rightarrow>
                              Return (EDR_clear_event (e\<lparr>sensors := ss\<rparr>), fs3))))))"

subsection \<open>Separating axis theorem\<close>

type_synonym vec = "real \<times> real"

definition edge_vector :: "vec \<Rightarrow> vec \<Rightarrow> vec" where
  "edge_vector point1 point2 = (fst point2 - fst point1, snd point2 - snd point1)"

text \<open>Every index read is below \<open>length poly\<close>, so no read is out of range.\<close>

definition poly_to_edges :: "vec list \<Rightarrow> vec list" where
  "poly_to_edges poly =
     map (\<lambda>i. edge_vector (poly ! i) (poly ! ((i + 1) mod length poly))) [0..<length poly]"

definition orthogonal :: "vec \<Rightarrow> vec" where
  "orthogonal vector = (snd vector, - fst vector)"

definition dot_product :: "vec \<Rightarrow> vec \<Rightarrow> real" where
  "dot_product vector1 vector2 = fst vector1 * fst vector2 + snd vector1 * snd vector2"

text \<open>\<^verbatim>\<open>min\<close> and \<^verbatim>\<open>max\<close> of a list raise \<^verbatim>\<open>ValueError\<close> on the empty list.\<close>

fun py_min :: "real list \<Rightarrow> error + real" where
  "py_min [] = Inl ValueError"
| "py_min (x # xs) = Inr (fold min xs x)"

fun py_max :: "real list \<Rightarrow> error + real" where
  "py_max [] = Inl ValueError"
| "py_max (x # xs) = Inr (fold max xs x)"

definition project :: "vec list \<Rightarrow> vec \<Rightarrow> error + vec" where
  "project poly axis =
     (let dots = map (\<lambda>point. dot_product point axis) poly in
      case py_min dots of
        Inl e \<Rightarrow> Inl e
      | Inr lo \<Rightarrow> (case py_max dots of Inl e \<Rightarrow> Inl e | Inr hi \<Rightarrow> Inr (lo, hi)))"

text \<open>\<^verbatim>\<open>overlap\<close> takes the \<^verbatim>\<open>min\<close> and \<^verbatim>\<open>max\<close> of each pair again.\<close>

definition overlap :: "vec \<Rightarrow> vec \<Rightarrow> bool" where
  "overlap projection1 projection2 =
     (min (fst projection1) (snd projection1) \<le> max (fst projection2) (snd projection2)
      \<and> min (fst projection2) (snd projection2) \<le> max (fst projection1) (snd projection1))"

text \<open>The loop of \<^verbatim>\<open>has_collided\<close> over the axes, with its early return.\<close>

fun has_collided_loop :: "vec list \<Rightarrow> vec list \<Rightarrow> vec list \<Rightarrow> error + bool" where
  "has_collided_loop poly1 poly2 [] = Inr True"
| "has_collided_loop poly1 poly2 (axis # axes) =
     (case project poly1 axis of
        Inl e \<Rightarrow> Inl e
      | Inr p1 \<Rightarrow>
          (case project poly2 axis of
             Inl e \<Rightarrow> Inl e
           | Inr p2 \<Rightarrow>
               if \<not> overlap p1 p2 then Inr False
               else has_collided_loop poly1 poly2 axes))"

definition has_collided :: "vec list \<Rightarrow> vec list \<Rightarrow> error + bool" where
  "has_collided poly1 poly2 =
     (let edges = poly_to_edges poly1 @ poly_to_edges poly2;
          axes = map orthogonal edges
      in has_collided_loop poly1 poly2 axes)"

subsection \<open>Auxiliary notions for the statements\<close>

text \<open>A call \<^verbatim>\<open>on_data(t, _)\<close> passes the three guards of the method: the buffer is not
  saving, the post-event window (if any) is not over at \<open>t\<close>, and \<open>t\<close> is not earlier
  than the next allowed timestamp (if any).\<close>

definition accepts :: "'d EDRBuffer \<Rightarrow> real \<Rightarrow> bool" where
  "accepts b t =
     (\<not> saving b
      \<and> (case end_timestamp b of None \<Rightarrow> True | Some e \<Rightarrow> t \<le> e)
      \<and> (case next_timestamp b of None \<Rightarrow> True | Some n \<Rightarrow> n \<le> t))"

text \<open>The state an outcome leaves behind, whether the call returned or raised.\<close>

definition state_of :: "'s outcome \<Rightarrow> 's" where
  "state_of r = (case r of Return s \<Rightarrow> s | Raise e s \<Rightarrow> s)"

text \<open>A buffer between \<^verbatim>\<open>on_event_trigger\<close> and \<^verbatim>\<open>clear\<close> has its three event
  fields set; a sensor is untriggered when its buffer has no event timestamp.\<close>

definition buffer_triggered :: "'d EDRBuffer \<Rightarrow> bool" where
  "buffer_triggered b =
     (event_timestamp b \<noteq> None \<and> start_timestamp b \<noteq> None \<and> end_timestamp b \<noteq> None)"

definition untriggered :: "'d EDRSensor \<Rightarrow> bool" where
  "untriggered s = (event_timestamp (edr_buffer s) = None)"

text \<open>Two environments: one where every file operation succeeds, one where the disk
  refuses every frame file (\<^verbatim>\<open>save_to_disk\<close> raises) but directories can be made.\<close>

definition io_ok :: "'d io" where
  "io_ok eff = True"

definition io_no_frames :: "'d io" where
  "io_no_frames eff = (case eff of SaveToDisk d p \<Rightarrow> False | _ \<Rightarrow> True)"

text \<open>What a flush is expected to write, stated without the loops: the sensor's folder,
  then one file per pre-event sample not older than the window start, then one file per
  post-event sample not later than the window end, each in buffer order.\<close>

definition frame_effect ::
  "'d EDRBuffer \<Rightarrow> real \<Rightarrow> string \<Rightarrow> string \<Rightarrow> real \<times> 'd \<Rightarrow> 'd effect" where
  "frame_effect b ev path extn item =
     SaveToDisk (snd item)
       (os_path_join path
          [frame_filename (sensor_id b) (fst item) (float_sub (fst item) ev) extn])"

definition buffer_files :: "'d EDRBuffer \<Rightarrow> string \<Rightarrow> string \<Rightarrow> 'd effect list" where
  "buffer_files b base_path extn =
     (case (event_timestamp b, start_timestamp b, end_timestamp b) of
        (Some ev, Some st, Some en) \<Rightarrow>
          (let path = os_path_join base_path [sensor_type b, sensor_id b] in
           MakeDirs path
           # map (frame_effect b ev path extn)
               (filter (\<lambda>item. st \<le> fst item) (items (preevent_buffer b))
                @ filter (\<lambda>item. fst item \<le> en) (items (postevent_buffer b))))
      | _ \<Rightarrow> [])"

definition sensor_files :: "string \<Rightarrow> 'd EDRSensor \<Rightarrow> 'd effect list" where
  "sensor_files path s = buffer_files (edr_buffer s) path (ext s)"

text \<open>A sensor after a completed flush of its buffer.\<close>

definition saved :: "'d EDRSensor \<Rightarrow> 'd EDRSensor" where
  "saved s = s\<lparr>edr_buffer := (edr_buffer s)\<lparr>saving := False\<rparr>\<rparr>"

text \<open>The rate-limit guard of \<^verbatim>\<open>on_data\<close> alone.\<close>

definition next_allows :: "'d EDRBuffer \<Rightarrow> real \<Rightarrow> bool" where
  "next_allows b t = (case next_timestamp b of None \<Rightarrow> True | Some n \<Rightarrow> n \<le> t)"

text \<open>Timestamps that increase strictly and lie at least \<open>iv\<close> apart.\<close>

fun spaced :: "real \<Rightarrow> real list \<Rightarrow> bool" where
  "spaced iv [] = True"
| "spaced iv [t] = True"
| "spaced iv (t # u # ts) = (t < u \<and> t + iv \<le> u \<and> spaced iv (u # ts))"

text \<open>The collision test stated without loops: the edges of a polygon are its vertices
  paired with the next vertex, the last with the first; the projection of a polygon on
  an axis is the range between the least and the greatest dot product of a vertex with
  the axis; two ranges overlap when each starts before the other ends.\<close>

definition proj_lo :: "vec list \<Rightarrow> vec \<Rightarrow> real" where
  "proj_lo poly axis = Min ((\<lambda>point. dot_product point axis) ` set poly)"

definition proj_hi :: "vec list \<Rightarrow> vec \<Rightarrow> real" where
  "proj_hi poly axis = Max ((\<lambda>point. dot_product point axis) ` set poly)"

definition ranges_overlap :: "vec list \<Rightarrow> vec list \<Rightarrow> vec \<Rightarrow> bool" where
  "ranges_overlap poly1 poly2 axis =
     (proj_lo poly1 axis \<le> proj_hi poly2 axis \<and> proj_lo poly2 axis \<le> proj_hi poly1 axis)"

definition edges_in_sequence :: "vec list \<Rightarrow> vec list" where
  "edges_in_sequence poly = map (\<lambda>(a, b). edge_vector a b) (zip poly (rotate1 poly))"

text \<open>The states a recorder can be in: it starts as \<^verbatim>\<open>EDR()\<close> and changes by its own
  methods, however they end, and by what the producers do to the sensor objects it
  holds.\<close>

inductive reachable :: "'d EDR \<Rightarrow> bool" where
  init: "reachable EDR_init"
| add_sensor: "reachable e \<Longrightarrow> reachable (add_sensor e s)"
| sensor_data:
    "reachable e \<Longrightarrow> length ss = length (sensors e) \<Longrightarrow> reachable (e\<lparr>sensors := ss\<rparr>)"
| clear: "reachable e \<Longrightarrow> reachable (EDR_clear e)"
| clear_event: "reachable e \<Longrightarrow> reachable (EDR_clear_event e)"
| on_event_trigger: "reachable e \<Longrightarrow> reachable (state_of (EDR_on_event_trigger e now rsn))"
| save_data:
    "reachable e \<Longrightarrow> reachable (fst (state_of (EDR_save_data date_time io e base_path fs)))"

subsection \<open>Concrete inputs\<close>

text \<open>A camera-like sensor \<^verbatim>\<open>front\<close> with a 2 s pre-event and a 1 s post-event
  window at 10 Hz, as its constructor leaves it; the same sensor holding one sample taken
  at \<open>t = 9.5\<close>; and that sensor after a trigger at \<open>t = 10\<close> and one more sample at
  \<open>t = 10.5\<close>. Payloads are numbered.\<close>

definition front_new :: "nat EDRBuffer" where
  "front_new =
     \<lparr>sensor_type = ''images'', sensor_id = ''front'', preevent_time = 2,
      postevent_time = 1, max_sample_rate = 10, sample_interval = float_div 1 10,
      preevent_buffer = \<lparr>maxlen = Some 20, items = []\<rparr>,
      postevent_buffer = \<lparr>maxlen = None, items = []\<rparr>,
      event_timestamp = None, start_timestamp = None, end_timestamp = None,
      next_timestamp = None, saving = False\<rparr>"

definition front_idle :: "nat EDRBuffer" where
  "front_idle =
     front_new\<lparr>preevent_buffer := \<lparr>maxlen = Some 20, items = [(19 / 2, 7)]\<rparr>,
               next_timestamp := Some (float_add (19 / 2) (float_div 1 10))\<rparr>"

definition front_event :: "nat EDRBuffer" where
  "front_event =
     front_idle\<lparr>postevent_buffer := \<lparr>maxlen = None, items = [(21 / 2, 8)]\<rparr>,
                event_timestamp := Some 10, start_timestamp := Some 8,
                end_timestamp := Some 11,
                next_timestamp := Some (float_add (21 / 2) (float_div 1 10))\<rparr>"

definition camera :: "nat EDRBuffer \<Rightarrow> nat EDRSensor" where
  "camera b = \<lparr>edr_buffer = b, ext = ''.png''\<rparr>"

text \<open>The same camera-like buffer for other windows and rates, as the constructor leaves
  it when the ring capacity is \<open>cap\<close>; and the 10 Hz buffer triggered at \<open>t = 3\<close> with
  nothing in its ring.\<close>

definition front_at :: "real \<Rightarrow> real \<Rightarrow> real \<Rightarrow> nat \<Rightarrow> nat EDRBuffer" where
  "front_at p q r cap =
     \<lparr>sensor_type = ''images'', sensor_id = ''front'', preevent_time = p,
      postevent_time = q, max_sample_rate = r, sample_interval = float_div 1 r,
      preevent_buffer = \<lparr>maxlen = Some cap, items = []\<rparr>,
      postevent_buffer = \<lparr>maxlen = None, items = []\<rparr>,
      event_timestamp = None, start_timestamp = None, end_timestamp = None,
      next_timestamp = None, saving = False\<rparr>"

definition front_window :: "nat EDRBuffer" where
  "front_window =
     front_new\<lparr>event_timestamp := Some 3, start_timestamp := Some 1,
               end_timestamp := Some 4\<rparr>"

text \<open>Numbered samples: sample \<open>k\<close> of \<open>tenths\<close> has the double nearest to \<open>k / 10\<close> as
  its timestamp (what Python makes of \<^verbatim>\<open>3.1\<close> or of \<^verbatim>\<open>31 / 10\<close>), sample \<open>k\<close> of
  \<open>eighths\<close> has timestamp \<open>k / 8\<close>, which is a double.\<close>

definition tenths :: "nat \<Rightarrow> nat \<Rightarrow> (real \<times> nat) list" where
  "tenths i j = map (\<lambda>k. (fl (real k / 10), k)) [i..<j]"

definition eighths :: "nat \<Rightarrow> nat \<Rightarrow> (real \<times> nat) list" where
  "eighths i j = map (\<lambda>k. (real k / 8, k)) [i..<j]"

text \<open>The axis-aligned unit square centred at \<open>(cx, cy)\<close>, counter-clockwise.\<close>

definition unit_square :: "real \<Rightarrow> real \<Rightarrow> vec list" where
  "unit_square cx cy =
     [(cx - 1 / 2, cy - 1 / 2), (cx + 1 / 2, cy - 1 / 2),
      (cx + 1 / 2, cy + 1 / 2), (cx - 1 / 2, cy + 1 / 2)]"

section \<open>Properties of the rounding\<close>

subsection \<open>Binary digits and powers of two\<close>

lemma bit_length_bounds:
  "0 < n \<Longrightarrow> 2 ^ (bit_length n - 1) \<le> n \<and> n < 2 ^ bit_length n"
proof (induction n rule: bit_length.induct)
  case (1 n)
  show ?case
  proof (cases "n div 2 = 0")
    case True
    with "1.prems" have "n = 1" by arith
    moreover have "bit_length (Suc 0) = Suc 0"
      by (simp add: bit_length.simps [of "Suc 0"] bit_length.simps [of 0])
    ultimately show ?thesis by simp
  next
    case False
    then have ih: "2 ^ (bit_length (n div 2) - 1) \<le> n div 2" "n div 2 < 2 ^ bit_length (n div 2)"
      using "1.IH" "1.prems" by auto
    have pos: "0 < bit_length (n div 2)"
      using False by (simp add: bit_length.simps [of "n div 2"])
    have bl: "bit_length n = Suc (bit_length (n div 2))"
      using "1.prems" by (simp add: bit_length.simps [of n])
    have "2 ^ (bit_length n - 1) = 2 * 2 ^ (bit_length (n div 2) - 1)"
      using pos bl by (cases "bit_length (n div 2)") simp_all
    also have "\<dots> \<le> 2 * (n div 2)" using ih(1) by simp
    also have "\<dots> \<le> n" by simp
    finally have lo: "2 ^ (bit_length n - 1) \<le> n" .
    have "n < 2 * (n div 2) + 2" by arith
    also have "\<dots> \<le> 2 * 2 ^ bit_length (n div 2)" using ih(2) by simp
    finally have hi: "n < 2 ^ bit_length n" using bl by simp
    show ?thesis using lo hi by simp
  qed
qed

lemma pow2_powi: "pow2 s = 2 powi s"
  by (simp add: pow2_def power_int_def inverse_eq_divide power_one_over [symmetric] del: power_one_over)

lemma pow2_pos [simp]: "0 < pow2 s"
  by (simp add: pow2_powi)

lemma pow2_add: "pow2 (a + b) = pow2 a * pow2 b"
  by (simp add: pow2_powi power_int_add)

lemma pow2_neg: "pow2 (- s) = 1 / pow2 s"
  by (simp add: pow2_powi power_int_minus inverse_eq_divide)

lemma pow2_nat: "pow2 (int n) = 2 ^ n"
  by (simp add: pow2_def)

lemma pow2_mono: "a \<le> b \<Longrightarrow> pow2 a \<le> pow2 b"
  by (simp add: pow2_powi power_int_increasing)

lemma pow2_nonzero [simp]: "pow2 s \<noteq> 0"
  using pow2_pos [of s] by linarith

subsection \<open>Rounding to an integer\<close>

lemma rhe_of_int [simp]: "round_half_even (of_int n) = n"
  by (simp add: round_half_even_def)

lemma rhe_cases:
  "round_half_even x = \<lfloor>x\<rfloor> \<or> round_half_even x = \<lfloor>x\<rfloor> + 1"
  by (simp add: round_half_even_def Let_def)

lemma rhe_mono: "x \<le> y \<Longrightarrow> round_half_even x \<le> round_half_even y"
proof -
  assume xy: "x \<le> y"
  have fm: "\<lfloor>x\<rfloor> \<le> \<lfloor>y\<rfloor>" using xy by (rule floor_mono)
  show ?thesis
  proof (cases "\<lfloor>x\<rfloor> = \<lfloor>y\<rfloor>")
    case True
    then have "x - of_int \<lfloor>x\<rfloor> \<le> y - of_int \<lfloor>y\<rfloor>" using xy by simp
    then show ?thesis using True
      by (auto simp add: round_half_even_def Let_def)
  next
    case False
    then have "\<lfloor>x\<rfloor> + 1 \<le> \<lfloor>y\<rfloor>" using fm by simp
    moreover have "round_half_even x \<le> \<lfloor>x\<rfloor> + 1" using rhe_cases [of x] by auto
    moreover have "\<lfloor>y\<rfloor> \<le> round_half_even y" using rhe_cases [of y] by auto
    ultimately show ?thesis by linarith
  qed
qed

lemma rhe_minus: "round_half_even (- x) = - round_half_even x"
proof (cases "x = of_int \<lfloor>x\<rfloor>")
  case True
  then obtain n where "x = of_int n" by blast  
  then show ?thesis by (simp flip: of_int_minus)
next
  case False
  then have f: "\<lfloor>- x\<rfloor> = - \<lfloor>x\<rfloor> - 1"
    by (metis Ints_of_int ceiling_altdef ceiling_def diff_minus_eq_add floor_minus minus_diff_eq of_int_floor_cancel uminus_add_conv_diff add.commute)
  have fr: "x - of_int \<lfloor>x\<rfloor> > 0"
    using False by (metis diff_gt_0_iff_gt le_less of_int_floor_le)
  show ?thesis
    using f fr by (auto simp add: round_half_even_def Let_def)
qed

subsection \<open>Rounding to a double keeps the sign and the order\<close>

lemma binade_shift_minus [simp]: "binade_shift (- x) = binade_shift x"
  by (simp add: binade_shift_def)

lemma bit_length_floor:
  fixes y :: real
  assumes "1 \<le> y"
  defines "k \<equiv> bit_length (nat \<lfloor>y\<rfloor>)"
  shows "0 < k" and "2 ^ (k - 1) \<le> y" and "y < 2 ^ k"
proof -
  let ?n = "nat \<lfloor>y\<rfloor>"
  have fl1: "1 \<le> \<lfloor>y\<rfloor>" using assms(1) by simp
  then have n: "0 < ?n" by simp
  have rn: "real ?n = of_int \<lfloor>y\<rfloor>" using fl1 by simp
  have b: "2 ^ (k - 1) \<le> ?n" "?n < 2 ^ k"
    using bit_length_bounds [OF n] by (simp_all add: k_def)
  show "0 < k" using b(2) n by (cases k) simp_all
  have "(2::real) ^ (k - 1) = real (2 ^ (k - 1))" by simp
  also have "\<dots> \<le> real ?n" using b(1) by (simp only: of_nat_le_iff)
  also have "\<dots> \<le> y" unfolding rn by (rule of_int_floor_le)
  finally show "2 ^ (k - 1) \<le> y" .
  have "?n + 1 \<le> 2 ^ k" using Suc_leI [OF b(2)] by (simp only: Suc_eq_plus1)
  then have "real (?n + 1) \<le> real (2 ^ k)" by (simp only: of_nat_le_iff)
  moreover have "y < real (?n + 1)"
    using rn by (simp add: add.commute) linarith
  ultimately show "y < 2 ^ k" by simp
qed

lemma scaled_range_pos:
  assumes "0 < x"
  shows "2 ^ 52 \<le> x * pow2 (binade_shift x) \<and> x * pow2 (binade_shift x) \<le> 2 ^ 53"
proof (cases "1 \<le> x")
  case True
  let ?k = "bit_length (nat \<lfloor>x\<rfloor>)"
  note r = bit_length_floor [OF True]
  have s: "binade_shift x = 53 - int ?k"
    using True by (simp add: binade_shift_def)
  have p: "pow2 (53 - int ?k) = 2 ^ 53 / 2 ^ ?k"
    using pow2_add [of 53 "- int ?k"] by (simp add: pow2_neg pow2_nat pow2_def)
  have k1: "(2::real) ^ ?k = 2 * 2 ^ (?k - 1)"
    using r(1) by (cases ?k) simp_all
  have "2 ^ 52 \<le> x * (2 ^ 53 / 2 ^ ?k)"
  proof -
    have "2 ^ 52 * 2 ^ ?k = 2 ^ 53 * (2::real) ^ (?k - 1)" using k1 by simp
    also have "\<dots> \<le> 2 ^ 53 * x" using r(2) by simp
    finally show ?thesis by (simp add: field_simps)
  qed
  moreover have "x * (2 ^ 53 / 2 ^ ?k) \<le> 2 ^ 53"
    using r(3) by (simp add: field_simps)
  ultimately show ?thesis by (simp add: s p)
next
  case False
  let ?k = "bit_length (nat \<lfloor>1 / x\<rfloor>)"
  have y1: "1 \<le> 1 / x" using False assms by simp
  note r = bit_length_floor [OF y1]
  have s: "binade_shift x = 52 + int ?k"
    using False assms by (simp add: binade_shift_def)
  have p: "pow2 (52 + int ?k) = 2 ^ 52 * 2 ^ ?k"
    using pow2_add [of 52 "int ?k"] by (simp add: pow2_nat pow2_def)
  have k1: "(2::real) ^ ?k = 2 * 2 ^ (?k - 1)"
    using r(1) by (cases ?k) simp_all
  have "1 \<le> x * 2 ^ ?k"
    using r(3) assms by (simp add: field_simps)
  moreover have "x * 2 ^ (?k - 1) \<le> 1"
    using r(2) assms by (simp add: field_simps)
  ultimately show ?thesis by (simp add: s p k1)
qed

lemma fl_zero [simp]: "fl 0 = 0"
  by (simp add: fl_def)

lemma fl_minus: "fl (- x) = - fl x"
  by (simp add: fl_def Let_def rhe_minus)

lemma fl_pos_bounds:
  assumes "0 < x"
  shows "2 ^ 52 * pow2 (- binade_shift x) \<le> fl x"
    and "fl x \<le> 2 ^ 53 * pow2 (- binade_shift x)"
proof -
  let ?s = "binade_shift x"
  note r = scaled_range_pos [OF assms]
  have "round_half_even (of_int (2 ^ 52)) \<le> round_half_even (x * pow2 ?s)"
    using r by (intro rhe_mono) simp
  then have lo: "(2 ^ 52 :: real) \<le> of_int (round_half_even (x * pow2 ?s))"
    unfolding rhe_of_int by (metis of_int_le_iff of_int_numeral of_int_power)
  have "round_half_even (x * pow2 ?s) \<le> round_half_even (of_int (2 ^ 53))"
    using r by (intro rhe_mono) simp
  then have hi: "of_int (round_half_even (x * pow2 ?s)) \<le> (2 ^ 53 :: real)"
    unfolding rhe_of_int by (metis of_int_le_iff of_int_numeral of_int_power)
  have f: "fl x = of_int (round_half_even (x * pow2 ?s)) * pow2 (- ?s)"
    using assms by (simp add: fl_def Let_def)
  show "2 ^ 52 * pow2 (- ?s) \<le> fl x"
    unfolding f using lo by (intro mult_right_mono) (simp_all add: less_imp_le)
  show "fl x \<le> 2 ^ 53 * pow2 (- ?s)"
    unfolding f using hi by (intro mult_right_mono) (simp_all add: less_imp_le)
qed

lemma fl_pos: "0 < x \<Longrightarrow> 0 < fl x"
proof -
  assume x: "0 < x"
  have "0 < 2 ^ 52 * pow2 (- binade_shift x)" by simp
  then show ?thesis using fl_pos_bounds(1) [OF x] by linarith
qed

lemma fl_neg: "x < 0 \<Longrightarrow> fl x < 0"
  using fl_pos [of "- x"] by (simp add: fl_minus)

lemma fl_mono_pos:
  assumes "0 < x" and "x \<le> y"
  shows "fl x \<le> fl y"
proof -
  let ?sx = "binade_shift x" and ?sy = "binade_shift y"
  have y: "0 < y" using assms by simp
  note rx = scaled_range_pos [OF assms(1)] and ry = scaled_range_pos [OF y]
  consider "?sx = ?sy" | "?sy < ?sx" | "?sx < ?sy" by linarith
  then show ?thesis
  proof cases
    case 1
    have "x * pow2 ?sy \<le> y * pow2 ?sy"
      using assms(2) by (intro mult_right_mono) (simp_all add: less_imp_le)
    then have "round_half_even (x * pow2 ?sy) \<le> round_half_even (y * pow2 ?sy)"
      by (rule rhe_mono)
    then have "(of_int (round_half_even (x * pow2 ?sy)) :: real) * pow2 (- ?sy)
                 \<le> of_int (round_half_even (y * pow2 ?sy)) * pow2 (- ?sy)"
      by (intro mult_right_mono) (simp_all add: less_imp_le)
    then show ?thesis
      using assms(1) y 1 by (simp add: fl_def Let_def)
  next
    case 2
    then have "1 - ?sx \<le> - ?sy" by simp
    then have "pow2 (1 - ?sx) \<le> pow2 (- ?sy)" by (rule pow2_mono)
    moreover have "pow2 (1 - ?sx) = 2 * pow2 (- ?sx)"
      using pow2_add [of 1 "- ?sx"] by (simp add: pow2_def)
    ultimately have "2 ^ 53 * pow2 (- ?sx) \<le> 2 ^ 52 * pow2 (- ?sy)" by simp
    then show ?thesis
      using fl_pos_bounds(2) [OF assms(1)] fl_pos_bounds(1) [OF y] by linarith
  next
    case 3
    then have "1 - ?sy \<le> - ?sx" by simp
    then have "pow2 (1 - ?sy) \<le> pow2 (- ?sx)" by (rule pow2_mono)
    moreover have "pow2 (1 - ?sy) = 2 * pow2 (- ?sy)"
      using pow2_add [of 1 "- ?sy"] by (simp add: pow2_def)
    ultimately have le: "2 ^ 53 * pow2 (- ?sy) \<le> 2 ^ 52 * pow2 (- ?sx)" by simp
    have "y = (y * pow2 ?sy) * pow2 (- ?sy)" by (simp add: pow2_neg)
    also have "\<dots> \<le> 2 ^ 53 * pow2 (- ?sy)"
      using ry by (intro mult_right_mono) (simp_all add: less_imp_le)
    finally have yle: "y \<le> 2 ^ 53 * pow2 (- ?sy)" .
    have "2 ^ 52 * pow2 (- ?sx) \<le> (x * pow2 ?sx) * pow2 (- ?sx)"
      using rx by (intro mult_right_mono) (simp_all add: less_imp_le)
    also have "\<dots> = x" by (simp add: pow2_neg)
    finally have xge: "2 ^ 52 * pow2 (- ?sx) \<le> x" .
    have "x = y" using yle xge le assms(2) by linarith
    then show ?thesis by simp
  qed
qed

lemma fl_mono: "x \<le> y \<Longrightarrow> fl x \<le> fl y"
proof -
  assume xy: "x \<le> y"
  consider "0 < x" | "x \<le> 0" "0 \<le> y" | "y < 0" by linarith
  then show ?thesis
  proof cases
    case 1
    then show ?thesis using xy by (rule fl_mono_pos)
  next
    case 2
    have "fl x \<le> 0" using 2(1) fl_neg [of x] by (cases "x = 0") auto
    moreover have "0 \<le> fl y" using 2(2) fl_pos [of y] by (cases "y = 0") auto
    ultimately show ?thesis by simp
  next
    case 3
    then have "fl (- y) \<le> fl (- x)" using xy by (intro fl_mono_pos) simp_all
    then show ?thesis by (simp add: fl_minus)
  qed
qed

lemma fl_less_zero_iff: "fl x < 0 \<longleftrightarrow> x < 0"
  using fl_neg [of x] fl_pos [of x] by (cases "x = 0"; cases "0 < x") auto

lemma fl_nonneg: "0 \<le> x \<Longrightarrow> 0 \<le> fl x"
  using fl_mono [of 0 x] by simp

subsection \<open>Evaluating the rounding on numerals\<close>

lemma bit_length_numeral:
  "bit_length (numeral k) = Suc (bit_length (numeral k div 2))"
  by (simp add: bit_length.simps [of "numeral k"])

lemma bit_length_small: "bit_length 0 = 0" "bit_length 1 = 1" "bit_length (Suc 0) = 1"
  by (simp_all add: bit_length.simps [of 0] bit_length.simps [of 1] bit_length.simps [of "Suc 0"])

lemmas fl_eval = fl_def binade_shift_def pow2_def round_half_even_def Let_def
  bit_length_numeral bit_length_small

lemmas float_eval = float_add_def float_sub_def float_mul_def float_div_def is_double_def fl_eval

section \<open>Properties of the sample buffer\<close>

subsection \<open>Basic facts\<close>

lemma on_data_rejected: "\<not> accepts b t \<Longrightarrow> EDRBuffer_on_data b t d = b"
  by (auto simp add: accepts_def EDRBuffer_on_data_def split: option.splits)

lemma on_data_accepted_pre:
  "accepts b t \<Longrightarrow> event_timestamp b = None \<Longrightarrow>
   EDRBuffer_on_data b t d =
     b\<lparr>next_timestamp := Some (float_add t (sample_interval b)),
       preevent_buffer := deque_append (preevent_buffer b) (t, d)\<rparr>"
  by (auto simp add: accepts_def EDRBuffer_on_data_def Let_def split: option.splits)

lemma on_data_accepted_post:
  "accepts b t \<Longrightarrow> event_timestamp b = Some ev \<Longrightarrow>
   EDRBuffer_on_data b t d =
     b\<lparr>next_timestamp := Some (float_add t (sample_interval b)),
       postevent_buffer := deque_append (postevent_buffer b) (t, d)\<rparr>"
  by (auto simp add: accepts_def EDRBuffer_on_data_def Let_def split: option.splits)

lemma on_data_next_timestamp:
  "accepts b t \<Longrightarrow>
   next_timestamp (EDRBuffer_on_data b t d) = Some (float_add t (sample_interval b))"
  by (cases "event_timestamp b") (simp_all add: on_data_accepted_pre on_data_accepted_post)

lemma on_data_constant_fields:
  "saving (EDRBuffer_on_data b t d) = saving b"
  "event_timestamp (EDRBuffer_on_data b t d) = event_timestamp b"
  "start_timestamp (EDRBuffer_on_data b t d) = start_timestamp b"
  "end_timestamp (EDRBuffer_on_data b t d) = end_timestamp b"
  "sample_interval (EDRBuffer_on_data b t d) = sample_interval b"
  "postevent_time (EDRBuffer_on_data b t d) = postevent_time b"
  "preevent_time (EDRBuffer_on_data b t d) = preevent_time b"
  "maxlen (preevent_buffer (EDRBuffer_on_data b t d)) = maxlen (preevent_buffer b)"
  "maxlen (postevent_buffer (EDRBuffer_on_data b t d)) = maxlen (postevent_buffer b)"
  by (simp_all add: EDRBuffer_on_data_def deque_append_def Let_def split: option.splits)

lemma feed_Nil [simp]: "feed b [] = b"
  by (simp add: feed_def)

lemma feed_Cons [simp]: "feed b (s # ss) = feed (EDRBuffer_on_data b (fst s) (snd s)) ss"
  by (simp add: feed_def)

lemma feed_constant_fields:
  "saving (feed b ss) = saving b"
  "event_timestamp (feed b ss) = event_timestamp b"
  "start_timestamp (feed b ss) = start_timestamp b"
  "end_timestamp (feed b ss) = end_timestamp b"
  "sample_interval (feed b ss) = sample_interval b"
  "postevent_time (feed b ss) = postevent_time b"
  "preevent_time (feed b ss) = preevent_time b"
  "maxlen (preevent_buffer (feed b ss)) = maxlen (preevent_buffer b)"
  "maxlen (postevent_buffer (feed b ss)) = maxlen (postevent_buffer b)"
  by (induction ss arbitrary: b; simp add: on_data_constant_fields)+

lemma deque_append_length_le:
  "maxlen q = Some m \<Longrightarrow> length (items q) \<le> m \<Longrightarrow> length (items (deque_append q x)) \<le> m"
  by (simp add: deque_append_def Let_def)

lemma on_data_ring_length_le:
  assumes "maxlen (preevent_buffer b) = Some m" and "length (items (preevent_buffer b)) \<le> m"
  shows "length (items (preevent_buffer (EDRBuffer_on_data b t d))) \<le> m"
  using assms
  by (auto simp add: EDRBuffer_on_data_def Let_def deque_append_length_le split: option.splits)

lemma feed_ring_length_le:
  "maxlen (preevent_buffer b) = Some m \<Longrightarrow> length (items (preevent_buffer b)) \<le> m \<Longrightarrow>
   length (items (preevent_buffer (feed b ss))) \<le> m"
  by (induction ss arbitrary: b) (simp_all add: on_data_ring_length_le on_data_constant_fields)

lemma product_capacity_nonneg:
  assumes "0 \<le> p" and "0 < r"
  shows "0 \<le> py_int (float_mul p r)"
proof -
  have "0 \<le> p * r" using assms by simp
  then have "0 \<le> float_mul p r" unfolding float_mul_def by (rule fl_nonneg)
  then show ?thesis by (simp add: py_int_def)
qed

lemma init_fits:
  assumes "0 \<le> p" and "0 < r" and "py_int (float_mul p r) \<le> ssize_max"
  shows "(EDRBuffer_init st sid p q r :: error + 'd EDRBuffer) =
     Inr \<lparr>sensor_type = st, sensor_id = sid, preevent_time = p, postevent_time = q,
          max_sample_rate = r, sample_interval = float_div 1 r,
          preevent_buffer = \<lparr>maxlen = Some (nat (py_int (float_mul p r))), items = []\<rparr>,
          postevent_buffer = \<lparr>maxlen = None, items = []\<rparr>,
          event_timestamp = None, start_timestamp = None, end_timestamp = None,
          next_timestamp = None, saving = False\<rparr>"
proof -
  have n: "0 \<le> py_int (float_mul p r)" by (rule product_capacity_nonneg [OF assms(1,2)])
  have "\<not> py_int (float_mul p r) < - ssize_max - 1"
    using n by (simp add: ssize_max_def)
  moreover have "\<not> ssize_max < py_int (float_mul p r)" using assms(3) by simp
  moreover have "\<not> py_int (float_mul p r) < 0" using n by simp
  moreover have "\<not> r \<le> 0" using assms(2) by simp
  ultimately show ?thesis
    by (simp add: EDRBuffer_init_def deque_new_def Let_def)
qed

lemma init_too_large:
  assumes "ssize_max < py_int (float_mul p r)"
  shows "(EDRBuffer_init st sid p q r :: error + 'd EDRBuffer) = Inl OverflowError"
  using assms by (simp add: EDRBuffer_init_def deque_new_def Let_def)

lemmas init_eval = EDRBuffer_init_def deque_new_def ssize_max_def py_int_def Let_def

lemmas on_data_eval = EDRBuffer_on_data_def deque_append_def Let_def

subsection \<open>C4: capacity of the pre-event ring\<close>

text \<open>
  C4 as stated (capacity \<open>ceil(p \<times> r)\<close>, for every \<open>p \<ge> 0\<close> and \<open>r > 0\<close>) fails twice.
  \<^verbatim>\<open>int(preevent_time * max_sample_rate)\<close> truncates: with \<open>p = 0.25\<close> and \<open>r = 10\<close> the
  ring holds 2 samples, while \<open>ceil(2.5) = 3\<close>. And the constructor does not always
  build a ring: with \<open>p = r = 1e10\<close> the capacity \<open>10 ^ 20\<close> does not fit a C
  \<^verbatim>\<open>ssize_t\<close> and \<^verbatim>\<open>deque(maxlen=...)\<close> raises \<^verbatim>\<open>OverflowError\<close>.
\<close>

theorem C4_capacity_is_not_ceiling:
  "(EDRBuffer_init ''images'' ''front'' (1 / 4) 1 10 :: error + unit EDRBuffer) =
     Inr \<lparr>sensor_type = ''images'', sensor_id = ''front'', preevent_time = 1 / 4,
          postevent_time = 1, max_sample_rate = 10, sample_interval = float_div 1 10,
          preevent_buffer = \<lparr>maxlen = Some 2, items = []\<rparr>,
          postevent_buffer = \<lparr>maxlen = None, items = []\<rparr>,
          event_timestamp = None, start_timestamp = None, end_timestamp = None,
          next_timestamp = None, saving = False\<rparr>
   \<and> nat \<lceil>(1 / 4) * 10 :: real\<rceil> = 3
   \<and> is_double (1 / 4) \<and> is_double 10 \<and> is_double (10 ^ 10)
   \<and> (EDRBuffer_init ''images'' ''front'' (10 ^ 10) 1 (10 ^ 10) :: error + unit EDRBuffer)
       = Inl OverflowError"
  by (simp add: init_eval float_eval)

text \<open>
  C4 (amended): for all doubles \<open>p \<ge> 0\<close> and \<open>r > 0\<close>, let \<open>n\<close> be \<^verbatim>\<open>int(p * r)\<close>: the
  product rounded to a double, then truncated. When \<open>n\<close> exceeds the largest
  \<^verbatim>\<open>ssize_t\<close> the constructor raises \<^verbatim>\<open>OverflowError\<close>. Otherwise it succeeds with an
  empty pre-event ring; after any sequence of \<^verbatim>\<open>on_data\<close> calls the ring still has the
  fixed capacity \<open>n\<close> and never holds more; and an accepted sample that arrives when the
  ring is full evicts the oldest sample: the ring becomes the old content followed by
  the new sample, without its first element.
\<close>

theorem C4_ring_capacity_and_eviction:
  assumes "is_double p" and "is_double r" and "0 \<le> p" and "0 < r"
  shows "(ssize_max < py_int (float_mul p r) \<longrightarrow>
            (EDRBuffer_init st sid p q r :: error + 'd EDRBuffer) = Inl OverflowError)
       \<and> (py_int (float_mul p r) \<le> ssize_max \<longrightarrow>
            (\<exists>b0 :: 'd EDRBuffer.
               EDRBuffer_init st sid p q r = Inr b0
             \<and> items (preevent_buffer b0) = []
             \<and> maxlen (preevent_buffer (feed b0 samples)) = Some (nat (py_int (float_mul p r)))
             \<and> length (items (preevent_buffer (feed b0 samples))) \<le> nat (py_int (float_mul p r))
             \<and> (length (items (preevent_buffer (feed b0 samples))) = nat (py_int (float_mul p r))
                  \<and> accepts (feed b0 samples) t
                \<longrightarrow> items (preevent_buffer (EDRBuffer_on_data (feed b0 samples) t d))
                     = tl (items (preevent_buffer (feed b0 samples)) @ [(t, d)]))))"
proof (intro conjI impI)
  assume "ssize_max < py_int (float_mul p r)"
  then show "(EDRBuffer_init st sid p q r :: error + 'd EDRBuffer) = Inl OverflowError"
    by (rule init_too_large)
next
  assume fits: "py_int (float_mul p r) \<le> ssize_max"
  let ?cap = "nat (py_int (float_mul p r))"
  let ?ini = "\<lparr>sensor_type = st, sensor_id = sid, preevent_time = p, postevent_time = q,
          max_sample_rate = r, sample_interval = float_div 1 r,
          preevent_buffer = \<lparr>maxlen = Some ?cap, items = []\<rparr>,
          postevent_buffer = \<lparr>maxlen = None, items = []\<rparr>,
          event_timestamp = None, start_timestamp = None, end_timestamp = None,
          next_timestamp = None, saving = False\<rparr> :: 'd EDRBuffer"
  let ?cur = "feed ?ini samples"
  have i: "EDRBuffer_init st sid p q r = Inr ?ini"
    by (rule init_fits [OF assms(3,4) fits])
  have m: "maxlen (preevent_buffer ?cur) = Some ?cap"
    by (simp add: feed_constant_fields)
  have l: "length (items (preevent_buffer ?cur)) \<le> ?cap"
    by (rule feed_ring_length_le) simp_all
  have ev: "event_timestamp ?cur = None"
    by (simp add: feed_constant_fields)
  have e: "items (preevent_buffer (EDRBuffer_on_data ?cur t d))
             = tl (items (preevent_buffer ?cur) @ [(t, d)])"
    if "length (items (preevent_buffer ?cur)) = ?cap" and "accepts ?cur t"
    using that m by (simp add: on_data_accepted_pre [OF that(2) ev] deque_append_def Let_def)
  show "\<exists>b0 :: 'd EDRBuffer.
               EDRBuffer_init st sid p q r = Inr b0
             \<and> items (preevent_buffer b0) = []
             \<and> maxlen (preevent_buffer (feed b0 samples)) = Some ?cap
             \<and> length (items (preevent_buffer (feed b0 samples))) \<le> ?cap
             \<and> (length (items (preevent_buffer (feed b0 samples))) = ?cap
                  \<and> accepts (feed b0 samples) t
                \<longrightarrow> items (preevent_buffer (EDRBuffer_on_data (feed b0 samples) t d))
                     = tl (items (preevent_buffer (feed b0 samples)) @ [(t, d)]))"
    using i m l e by (intro exI [of _ ?ini]) simp
qed

theorem C4_ring_capacity_and_eviction_witness:
  "is_double (1 / 4) \<and> is_double 8 \<and> (0 :: real) \<le> 1 / 4 \<and> (0 :: real) < 8
   \<and> py_int (float_mul (1 / 4) 8) \<le> ssize_max
   \<and> EDRBuffer_init ''images'' ''front'' (1 / 4) 1 8 = Inr (front_at (1 / 4) 1 8 2)
   \<and> length (items (preevent_buffer (feed (front_at (1 / 4) 1 8 2) [(0, 0), (1 / 8, 1)])))
       = nat (py_int (float_mul (1 / 4) 8))
   \<and> accepts (feed (front_at (1 / 4) 1 8 2) [(0, 0), (1 / 8, 1)]) (1 / 4)
   \<and> items (preevent_buffer
        (EDRBuffer_on_data (feed (front_at (1 / 4) 1 8 2) [(0, 0), (1 / 8, 1)]) (1 / 4) 2))
       = [(1 / 8, 1), (1 / 4, 2)]
   \<and> is_double (fl (29 / 100)) \<and> is_double 100 \<and> 0 \<le> fl (29 / 100)
   \<and> py_int (float_mul (fl (29 / 100)) 100) \<le> ssize_max
   \<and> EDRBuffer_init ''images'' ''front'' (fl (29 / 100)) 1 100
       = Inr (front_at (fl (29 / 100)) 1 100 28)
   \<and> is_double (fl (3 / 10)) \<and> is_double 10 \<and> 0 \<le> fl (3 / 10)
   \<and> EDRBuffer_init ''images'' ''front'' (fl (3 / 10)) 1 10
       = Inr (front_at (fl (3 / 10)) 1 10 3)
   \<and> is_double (10 ^ 10) \<and> ssize_max < py_int (float_mul (10 ^ 10) (10 ^ 10))
   \<and> (EDRBuffer_init ''images'' ''front'' (10 ^ 10) 1 (10 ^ 10) :: error + nat EDRBuffer)
       = Inl OverflowError"
proof -
  have d: "is_double (1 / 4)" "is_double 8" "is_double (fl (29 / 100))" "is_double 100"
      "is_double (fl (3 / 10))" "is_double 10" "is_double (10 ^ 10)"
    by (simp_all add: float_eval)
  have p: "0 \<le> fl (29 / 100)" "0 \<le> fl (3 / 10)"
    by (simp_all add: float_eval)
  have c: "py_int (float_mul (1 / 4) 8) = 2" "py_int (float_mul (fl (29 / 100)) 100) = 28"
      "py_int (float_mul (fl (3 / 10)) 10) = 3"
      "py_int (float_mul (10 ^ 10) (10 ^ 10)) = 10 ^ 20"
    by (simp_all add: py_int_def float_eval)
  have i: "EDRBuffer_init ''images'' ''front'' (1 / 4) 1 8 = Inr (front_at (1 / 4) 1 8 2)"
      "EDRBuffer_init ''images'' ''front'' (fl (29 / 100)) 1 100
         = Inr (front_at (fl (29 / 100)) 1 100 28)"
      "EDRBuffer_init ''images'' ''front'' (fl (3 / 10)) 1 10
         = Inr (front_at (fl (3 / 10)) 1 10 3)"
    using p
    by (simp_all add: EDRBuffer_init_def deque_new_def Let_def c front_at_def ssize_max_def)
  have o: "(EDRBuffer_init ''images'' ''front'' (10 ^ 10) 1 (10 ^ 10) :: error + nat EDRBuffer)
         = Inl OverflowError"
    by (rule init_too_large) (simp add: ssize_max_def py_int_def float_eval)
  have f: "feed (front_at (1 / 4) 1 8 2) [(0, 0), (1 / 8, 1)]
             = (front_at (1 / 4) 1 8 2)
                 \<lparr>preevent_buffer := \<lparr>maxlen = Some 2, items = [(0, 0), (1 / 8, 1)]\<rparr>,
                  next_timestamp := Some (1 / 4)\<rparr>"
    by (simp add: front_at_def on_data_eval float_eval)
  have a: "accepts
             ((front_at (1 / 4) 1 8 2)
                 \<lparr>preevent_buffer := \<lparr>maxlen = Some 2, items = [(0, 0), (1 / 8, 1)]\<rparr>,
                  next_timestamp := Some (1 / 4)\<rparr>) (1 / 4)"
    by (simp add: front_at_def accepts_def)
  have e: "items (preevent_buffer
             (EDRBuffer_on_data
               ((front_at (1 / 4) 1 8 2)
                 \<lparr>preevent_buffer := \<lparr>maxlen = Some 2, items = [(0, 0), (1 / 8, 1)]\<rparr>,
                  next_timestamp := Some (1 / 4)\<rparr>) (1 / 4) 2))
           = [(1 / 8, 1), (1 / 4, 2)]"
    by (simp add: front_at_def on_data_eval)
  show ?thesis
    using C4_ring_capacity_and_eviction
            [of "1 / 4" 8 "''images''" "''front''" 1 "[(0, 0 :: nat), (1 / 8, 1)]" "1 / 4" 2]
          C4_ring_capacity_and_eviction
            [of "fl (29 / 100)" 100 "''images''" "''front''" 1 "[] :: (real \<times> nat) list" 0 0]
          C4_ring_capacity_and_eviction
            [of "fl (3 / 10)" 10 "''images''" "''front''" 1 "[] :: (real \<times> nat) list" 0 0]
          C4_ring_capacity_and_eviction
            [of "10 ^ 10" "10 ^ 10" "''images''" "''front''" 1 "[] :: (real \<times> nat) list" 0 0]
          d p c i o f a e
    by (simp add: ssize_max_def del: feed_Cons feed_Nil)
qed

subsection \<open>C5: the sample interval\<close>

text \<open>
  C5 as stated (interval 0, unthrottled, for \<open>r \<le> 0\<close>) fails: the constructor sets
  \<^verbatim>\<open>sample_interval = 1.0 if max_sample_rate <= 0.0\<close>. With \<open>r = 0\<close>, a trigger at
  \<open>t = 10\<close> and a sample accepted at \<open>t = 10\<close>, the sample at \<open>t = 10.5\<close> is rejected
  although the buffer is not saving and the window is open until \<open>t = 15\<close>: only the
  rate-limit check rejects it.
\<close>

theorem C5_nonpositive_rate_is_throttled:
  "(case EDRBuffer_init ''images'' ''front'' 2 5 0 of
      Inl e \<Rightarrow> Inl e
    | Inr b0 \<Rightarrow>
        (case EDRBuffer_on_event_trigger b0 10 of
           Inl e \<Rightarrow> Inl e
         | Inr b1 \<Rightarrow> Inr (EDRBuffer_on_data b1 10 (1::nat), 
                         EDRBuffer_on_data (EDRBuffer_on_data b1 10 1) (21 / 2) 2)))
   = (let b = \<lparr>sensor_type = ''images'', sensor_id = ''front'', preevent_time = 2,
               postevent_time = 5, max_sample_rate = 0, sample_interval = 1,
               preevent_buffer = \<lparr>maxlen = Some 0, items = []\<rparr>,
               postevent_buffer = \<lparr>maxlen = None, items = [(10, 1)]\<rparr>,
               event_timestamp = Some 10, start_timestamp = Some 8, end_timestamp = Some 15,
               next_timestamp = Some 11, saving = False\<rparr>
      in Inr (b, b))"
  by (simp add: init_eval EDRBuffer_on_event_trigger_def on_data_eval float_eval)

text \<open>
  C5 (amended): the sample interval is \<open>1/r\<close> (the double quotient) when \<open>r > 0\<close> and
  \<open>1.0\<close> when \<open>r \<le> 0\<close>. In every later state of the buffer (the interval is never
  written again), once a sample has been accepted at \<open>t0\<close>, an \<^verbatim>\<open>on_data\<close> call with a
  timestamp less than \<open>t0\<close> plus the interval (the double sum the code stores as the next
  allowed timestamp) is rejected: for \<open>r \<le> 0\<close> the buffer is throttled to one sample
  per second.
\<close>

theorem C5_sample_interval:
  assumes "EDRBuffer_init st sid p q r = Inr b0"
    and "sample_interval b = sample_interval b0"
    and "accepts b t0"
    and "t < float_add t0 (if r \<le> 0 then 1 else float_div 1 r)"
  shows "sample_interval b0 = (if r \<le> 0 then 1 else float_div 1 r)
       \<and> EDRBuffer_on_data (EDRBuffer_on_data b t0 d) t d' = EDRBuffer_on_data b t0 d"
proof -
  have si: "sample_interval b0 = (if r \<le> 0 then 1 else float_div 1 r)"
    using assms(1)
    by (auto simp add: EDRBuffer_init_def deque_new_def Let_def split: if_splits)
  have "next_timestamp (EDRBuffer_on_data b t0 d) = Some (float_add t0 (sample_interval b))"
    by (rule on_data_next_timestamp [OF assms(3)])
  then have "\<not> accepts (EDRBuffer_on_data b t0 d) t"
    using assms(2,4) si by (simp add: accepts_def)
  then show ?thesis
    using si by (simp add: on_data_rejected)
qed

theorem C5_sample_interval_witness:
  "(EDRBuffer_init ''images'' ''front'' 2 5 0 :: error + nat EDRBuffer)
     = Inr \<lparr>sensor_type = ''images'', sensor_id = ''front'', preevent_time = 2,
            postevent_time = 5, max_sample_rate = 0, sample_interval = 1,
            preevent_buffer = \<lparr>maxlen = Some 0, items = []\<rparr>,
            postevent_buffer = \<lparr>maxlen = None, items = []\<rparr>,
            event_timestamp = None, start_timestamp = None, end_timestamp = None,
            next_timestamp = None, saving = False\<rparr>
   \<and> accepts \<lparr>sensor_type = ''images'', sensor_id = ''front'', preevent_time = 2,
            postevent_time = 5, max_sample_rate = 0, sample_interval = 1,
            preevent_buffer = \<lparr>maxlen = Some 0, items = []\<rparr>,
            postevent_buffer = \<lparr>maxlen = None, items = []\<rparr>,
            event_timestamp = Some 10, start_timestamp = Some 8, end_timestamp = Some 15,
            next_timestamp = None, saving = False\<rparr> 10
   \<and> (21 / 2 :: real) < float_add 10 (if (0::real) \<le> 0 then 1 else float_div 1 0)
   \<and> EDRBuffer_on_data
        (EDRBuffer_on_data
           \<lparr>sensor_type = ''images'', sensor_id = ''front'', preevent_time = 2,
            postevent_time = 5, max_sample_rate = 0, sample_interval = 1,
            preevent_buffer = \<lparr>maxlen = Some 0, items = []\<rparr>,
            postevent_buffer = \<lparr>maxlen = None, items = []\<rparr>,
            event_timestamp = Some 10, start_timestamp = Some 8, end_timestamp = Some 15,
            next_timestamp = None, saving = False\<rparr> 10 (1::nat)) (21 / 2) 2
      = \<lparr>sensor_type = ''images'', sensor_id = ''front'', preevent_time = 2,
            postevent_time = 5, max_sample_rate = 0, sample_interval = 1,
            preevent_buffer = \<lparr>maxlen = Some 0, items = []\<rparr>,
            postevent_buffer = \<lparr>maxlen = None, items = [(10, 1)]\<rparr>,
            event_timestamp = Some 10, start_timestamp = Some 8, end_timestamp = Some 15,
            next_timestamp = Some 11, saving = False\<rparr>"
  using C5_sample_interval
          [of "''images''" "''front''" 2 5 0
              "\<lparr>sensor_type = ''images'', sensor_id = ''front'', preevent_time = 2,
                postevent_time = 5, max_sample_rate = 0, sample_interval = 1,
                preevent_buffer = \<lparr>maxlen = Some 0, items = []\<rparr>,
                postevent_buffer = \<lparr>maxlen = None, items = []\<rparr>,
                event_timestamp = None, start_timestamp = None, end_timestamp = None,
                next_timestamp = None, saving = False\<rparr> :: nat EDRBuffer"
              "\<lparr>sensor_type = ''images'', sensor_id = ''front'', preevent_time = 2,
                postevent_time = 5, max_sample_rate = 0, sample_interval = 1,
                preevent_buffer = \<lparr>maxlen = Some 0, items = []\<rparr>,
                postevent_buffer = \<lparr>maxlen = None, items = []\<rparr>,
                event_timestamp = Some 10, start_timestamp = Some 8, end_timestamp = Some 15,
                next_timestamp = None, saving = False\<rparr>"
              10 "21 / 2" 1 2]
  by (simp add: init_eval on_data_eval accepts_def float_eval)

subsection \<open>C7: the ring before a trigger\<close>

lemma spaced_tail: "spaced iv (t # ts) \<Longrightarrow> spaced iv ts"
  by (cases ts) simp_all

lemma deque_append_drop:
  assumes "maxlen q = Some cap" and "length (items q) \<le> cap"
  shows "items (deque_append q x) = drop (length (items q) + 1 - cap) (items q @ [x])"
proof (cases "length (items q) = cap")
  case True
  then have "length (items q) + 1 - cap = Suc 0" by simp
  then have "drop (length (items q) + 1 - cap) (items q @ [x]) = tl (items q @ [x])"
    by (simp only: drop_Suc drop_0)
  then show ?thesis using assms True by (simp add: deque_append_def Let_def)
next
  case False
  then have "length (items q) < cap" using assms by simp
  then show ?thesis using assms by (simp add: deque_append_def Let_def)
qed

text \<open>The next allowed timestamp is a rounded sum; rounding keeps the order, so a double
  that is at least the exact sum is at least the rounded one.\<close>

lemma float_add_le_double:
  assumes "t + iv \<le> u" and "is_double u"
  shows "float_add t iv \<le> u"
proof -
  have "fl (t + iv) \<le> fl u" using assms(1) by (rule fl_mono)
  then show ?thesis using assms(2) by (simp add: float_add_def is_double_def)
qed

lemma feed_ring:
  assumes "event_timestamp b = None" and "end_timestamp b = None" and "\<not> saving b"
    and "maxlen (preevent_buffer b) = Some cap"
    and "length (items (preevent_buffer b)) \<le> cap"
    and "spaced (sample_interval b) (map fst samples)"
    and "list_all is_double (map fst samples)"
    and "samples \<noteq> [] \<Longrightarrow> next_allows b (fst (hd samples))"
  shows "items (preevent_buffer (feed b samples))
           = drop (length (items (preevent_buffer b)) + length samples - cap)
               (items (preevent_buffer b) @ samples)"
  using assms
proof (induction samples arbitrary: b)
  case Nil
  then show ?case by simp
next
  case (Cons s rest)
  let ?b' = "EDRBuffer_on_data b (fst s) (snd s)"
  let ?xs = "items (preevent_buffer b)"
  have acc: "accepts b (fst s)"
    using Cons.prems by (simp add: accepts_def next_allows_def)
  have b': "?b' = b\<lparr>next_timestamp := Some (float_add (fst s) (sample_interval b)),
                    preevent_buffer := deque_append (preevent_buffer b) s\<rparr>"
    using on_data_accepted_pre [OF acc Cons.prems(1), of "snd s"] by simp
  have xs': "items (preevent_buffer ?b') = drop (length ?xs + 1 - cap) (?xs @ [s])"
    using Cons.prems(4,5) by (simp add: b' deque_append_drop)
  have len': "length (items (preevent_buffer ?b')) \<le> cap"
    using Cons.prems(4,5) by (simp add: b' deque_append_length_le)
  have nx: "next_allows ?b' (fst (hd rest))" if "rest \<noteq> []"
  proof -
    from that obtain u rest' where r: "rest = u # rest'" by (cases rest) auto
    have "fst s + sample_interval b \<le> fst u" "is_double (fst u)"
      using Cons.prems(6,7) r by simp_all
    then have "float_add (fst s) (sample_interval b) \<le> fst u"
      by (rule float_add_le_double)
    then show ?thesis by (simp add: b' next_allows_def r)
  qed
  have ih: "items (preevent_buffer (feed ?b' rest))
           = drop (length (items (preevent_buffer ?b')) + length rest - cap)
               (items (preevent_buffer ?b') @ rest)"
  proof (rule Cons.IH)
    show "event_timestamp ?b' = None" using Cons.prems(1) by (simp add: b')
    show "end_timestamp ?b' = None" using Cons.prems(2) by (simp add: b')
    show "\<not> saving ?b'" using Cons.prems(3) by (simp add: b')
    show "maxlen (preevent_buffer ?b') = Some cap"
      using Cons.prems(4) by (simp add: on_data_constant_fields)
    show "length (items (preevent_buffer ?b')) \<le> cap" by (rule len')
    show "spaced (sample_interval ?b') (map fst rest)"
      using spaced_tail [of "sample_interval b" "fst s" "map fst rest"] Cons.prems(6)
      by (simp add: on_data_constant_fields)
    show "list_all is_double (map fst rest)" using Cons.prems(7) by simp
    show "next_allows ?b' (fst (hd rest))" if "rest \<noteq> []" using that by (rule nx)
  qed
  show ?case
  proof (cases "length ?xs = cap")
    case True
    then have one: "length ?xs + 1 - cap = Suc 0" by simp
    have t: "items (preevent_buffer ?b') = tl (?xs @ [s])"
      unfolding xs' one by (simp only: drop_Suc drop_0)
    have l: "length (tl (?xs @ [s])) = cap" using True by simp
    have "tl (?xs @ [s]) @ rest = tl (?xs @ s # rest)" by (cases ?xs) simp_all
    then have "items (preevent_buffer (feed ?b' rest)) = drop (length rest) (tl (?xs @ s # rest))"
      using ih t l by simp
    also have "\<dots> = drop (Suc (length rest)) (?xs @ s # rest)"
      by (simp only: drop_Suc)
    also have "Suc (length rest) = length ?xs + length (s # rest) - cap"
      using True by simp
    finally show ?thesis by simp
  next
    case False
    then have lt: "length ?xs < cap" using Cons.prems(5) by simp
    then have "items (preevent_buffer ?b') = ?xs @ [s]"
      using xs' by simp
    then show ?thesis
      using ih lt by simp
  qed
qed

text \<open>
  C7 (amended): a buffer as its constructor leaves it is fed samples whose timestamps are
  doubles that increase strictly and lie at least the sample interval apart, with no
  trigger. Then every call is accepted and the pre-event ring holds the last
  \<open>min(n, cap)\<close> of the \<open>n\<close> samples fed, in the order they arrived, where \<open>cap\<close> is the
  capacity the constructor gave the ring, \<^verbatim>\<open>int(preevent_time * max_sample_rate)\<close> (the
  double product, truncated), not the ceiling; the post-event queue stays empty.
\<close>

theorem C7_ring_holds_most_recent:
  assumes "EDRBuffer_init st sid p q r = Inr b0"
    and "spaced (sample_interval b0) (map fst samples)"
    and "list_all is_double (map fst samples)"
    and "cap = nat (py_int (float_mul p r))"
  shows "maxlen (preevent_buffer b0) = Some cap
       \<and> event_timestamp (feed b0 samples) = None
       \<and> items (preevent_buffer (feed b0 samples)) = drop (length samples - cap) samples
       \<and> length (items (preevent_buffer (feed b0 samples))) = min (length samples) cap
       \<and> items (postevent_buffer (feed b0 samples)) = []"
proof -
  have b0: "maxlen (preevent_buffer b0) = Some cap" "items (preevent_buffer b0) = []"
        "event_timestamp b0 = None" "end_timestamp b0 = None" "\<not> saving b0"
        "next_timestamp b0 = None" "items (postevent_buffer b0) = []"
    using assms(1,4)
    by (auto simp add: EDRBuffer_init_def deque_new_def Let_def split: if_splits)
  have "items (preevent_buffer (feed b0 samples))
           = drop (length (items (preevent_buffer b0)) + length samples - cap)
               (items (preevent_buffer b0) @ samples)"
    using b0 assms(2,3) by (intro feed_ring) (simp_all add: next_allows_def)
  then have d: "items (preevent_buffer (feed b0 samples)) = drop (length samples - cap) samples"
    using b0 by simp
  have post: "items (postevent_buffer (feed b' ss)) = items (postevent_buffer b')"
    if "event_timestamp b' = None" for b' :: "'a EDRBuffer" and ss
    using that
    by (induction ss arbitrary: b')
       (simp_all add: on_data_constant_fields EDRBuffer_on_data_def Let_def split: option.splits)
  show ?thesis
    using b0 d post [of b0 samples] by (simp add: feed_constant_fields min_def)
qed

lemma upt_from_0: "2 \<le> j \<Longrightarrow> [0..<j] = 0 # 1 # [2..<j]"
  by (simp add: upt_rec [of 0] upt_rec [of "Suc 0"] numeral_2_eq_2)

lemma init_front: "EDRBuffer_init ''images'' ''front'' 2 1 10 = Inr front_new"
  by (simp add: init_eval front_new_def float_mul_def fl_eval)

text \<open>
  C7 as stated fails with the capacity the specification gives the ring, \<open>ceil(p \<times> r)\<close>:
  with \<open>p = 0.25\<close> and \<open>r = 10\<close>, three samples one half second apart leave two samples
  in the ring, not \<open>min(3, ceil(2.5)) = 3\<close>.
\<close>

theorem C7_ring_smaller_than_ceiling:
  "EDRBuffer_init ''images'' ''front'' (1 / 4) 1 10 = Inr (front_at (1 / 4) 1 10 2)
   \<and> spaced (sample_interval (front_at (1 / 4) 1 10 2)) [0, 1 / 2, 1]
   \<and> is_double 0 \<and> is_double (1 / 2) \<and> is_double 1
   \<and> items (preevent_buffer
        (feed (front_at (1 / 4) 1 10 2) [(0, 0), (1 / 2, 1), (1, 2)]))
       = [(1 / 2, 1), (1, 2)]
   \<and> min 3 (nat \<lceil>(1 / 4) * 10 :: real\<rceil>) = 3"
  by (simp add: init_eval front_at_def on_data_eval float_eval)

lemma eighths_double: "list_all is_double (map fst (eighths 0 30))"
  by (simp add: eighths_def upt_from_0 float_eval)

lemma eighths_spaced: "spaced (float_div 1 8) (map fst (eighths 0 30))"
  by (simp add: eighths_def upt_from_0 float_eval)

lemma eighths_feed:
  "feed (front_at 2 1 8 16) (eighths 0 30)
     = (front_at 2 1 8 16)\<lparr>preevent_buffer := \<lparr>maxlen = Some 16, items = eighths 14 30\<rparr>,
                            next_timestamp := Some (15 / 4)\<rparr>"
  by (simp add: eighths_def upt_from_0 front_at_def on_data_eval float_eval)

theorem C7_ring_holds_most_recent_witness:
  "EDRBuffer_init ''images'' ''front'' 2 1 8 = Inr (front_at 2 1 8 16)
   \<and> spaced (sample_interval (front_at 2 1 8 16)) (map fst (eighths 0 30))
   \<and> list_all is_double (map fst (eighths 0 30))
   \<and> (16 :: nat) = nat (py_int (float_mul 2 8))
   \<and> items (preevent_buffer (feed (front_at 2 1 8 16) (eighths 0 30))) = eighths 14 30
   \<and> length (items (preevent_buffer (feed (front_at 2 1 8 16) (eighths 0 30)))) = 16"
proof -
  have i: "EDRBuffer_init ''images'' ''front'' 2 1 8 = Inr (front_at 2 1 8 16)"
    by (simp add: init_eval front_at_def float_mul_def fl_eval)
  have s: "spaced (sample_interval (front_at 2 1 8 16)) (map fst (eighths 0 30))"
    using eighths_spaced by (simp add: front_at_def)
  have c: "(16 :: nat) = nat (py_int (float_mul 2 8))"
    by (simp add: py_int_def float_eval)
  have l: "length (eighths 14 30) = 16" "length (eighths 0 30) = 30"
    by (simp_all add: eighths_def)
  show ?thesis
    using C7_ring_holds_most_recent
            [of "''images''" "''front''" 2 1 8 "front_at 2 1 8 16" "eighths 0 30" 16]
          i s c eighths_double
    by (simp add: eighths_feed l)
qed

subsection \<open>C2: the post-event window\<close>

lemma init_fields:
  assumes "EDRBuffer_init st sid p q r = Inr b"
  shows "\<not> saving b" "maxlen (postevent_buffer b) = None" "postevent_time b = q"
    "event_timestamp b = None"
  using assms
  by (auto simp add: EDRBuffer_init_def deque_new_def Let_def split: if_splits)

lemma trigger_front: "EDRBuffer_on_event_trigger front_new 3 = Inr front_window"
  by (simp add: EDRBuffer_on_event_trigger_def front_new_def front_window_def float_eval)

lemma window_feed:
  "feed front_window (tenths 31 43)
     = front_window\<lparr>postevent_buffer :=
                       \<lparr>maxlen = None, items = tenths 31 33 @ tenths 34 38 @ tenths 39 41\<rparr>,
                     next_timestamp := Some (float_add 4 (float_div 1 10))\<rparr>"
  by (simp add: tenths_def front_window_def front_new_def on_data_eval float_eval)

lemma window_feed_41:
  "feed front_window (tenths 31 41)
     = front_window\<lparr>postevent_buffer :=
                       \<lparr>maxlen = None, items = tenths 31 33 @ tenths 34 38 @ tenths 39 41\<rparr>,
                     next_timestamp := Some (float_add 4 (float_div 1 10))\<rparr>"
  by (simp add: tenths_def front_window_def front_new_def on_data_eval float_eval)

lemma window_feed_40:
  "feed front_window (tenths 31 40)
     = front_window\<lparr>postevent_buffer :=
                       \<lparr>maxlen = None, items = tenths 31 33 @ tenths 34 38 @ tenths 39 40\<rparr>,
                     next_timestamp := Some 4\<rparr>"
  by (simp add: tenths_def front_window_def front_new_def on_data_eval float_eval)

lemma post_event_window:
  assumes "EDRBuffer_init st sid p q r = Inr bi"
    and "EDRBuffer_on_event_trigger (feed bi before) T = Inr b1"
  shows "(t \<le> float_add T q \<and> next_allows (feed b1 after) t \<longrightarrow>
            items (postevent_buffer (EDRBuffer_on_data (feed b1 after) t d))
              = items (postevent_buffer (feed b1 after)) @ [(t, d)]
          \<and> preevent_buffer (EDRBuffer_on_data (feed b1 after) t d)
              = preevent_buffer (feed b1 after))
       \<and> (float_add T q < t \<longrightarrow> EDRBuffer_on_data (feed b1 after) t d = feed b1 after)"
proof -
  let ?cur = "feed b1 after"
  have b1: "b1 = (feed bi before)\<lparr>event_timestamp := Some T,
                   start_timestamp := Some (float_sub T (preevent_time (feed bi before))),
                   end_timestamp := Some (float_add T (postevent_time (feed bi before)))\<rparr>"
    using assms(2) by (simp add: EDRBuffer_on_event_trigger_def split: if_splits)
  have f: "\<not> saving ?cur" "maxlen (postevent_buffer ?cur) = None"
      "event_timestamp ?cur = Some T" "end_timestamp ?cur = Some (float_add T q)"
    using init_fields [OF assms(1)] by (simp_all add: feed_constant_fields b1)
  have "items (postevent_buffer (EDRBuffer_on_data ?cur t d))
              = items (postevent_buffer ?cur) @ [(t, d)]
          \<and> preevent_buffer (EDRBuffer_on_data ?cur t d) = preevent_buffer ?cur"
    if "t \<le> float_add T q \<and> next_allows ?cur t"
  proof -
    have "accepts ?cur t"
      using that f by (simp add: accepts_def next_allows_def)
    then show ?thesis
      using f by (simp add: on_data_accepted_post [OF _ f(3)] deque_append_def Let_def)
  qed
  moreover have "EDRBuffer_on_data ?cur t d = ?cur" if "float_add T q < t"
    using that f by (intro on_data_rejected) (simp add: accepts_def)
  ultimately show ?thesis by blast
qed

lemma post_event_scenario:
  "(case EDRBuffer_init ''images'' ''front'' 2 1 10 of
      Inl e \<Rightarrow> Inl e
    | Inr bi \<Rightarrow>
        (case EDRBuffer_on_event_trigger bi 3 of
           Inl e \<Rightarrow> Inl e
         | Inr b1 \<Rightarrow>
             Inr (items (postevent_buffer (feed b1 (tenths 31 43))),
                  feed b1 (tenths 31 43) = feed b1 (tenths 31 41))))
   = Inr (tenths 31 33 @ tenths 34 38 @ tenths 39 41, True)"
  by (simp add: init_front trigger_front window_feed window_feed_41)

text \<open>
  C2 as stated fails in three places. A sample inside the window is still subject to the
  rate limit: with the 10 Hz buffer triggered at \<open>t = 3\<close> (window end \<open>4\<close>), the sample at
  \<open>3.1\<close> is stored and the sample at \<open>3.15 \<le> 4\<close> is not. For the same reason the scenario
  stores eight samples, not ten: \<open>3.2 + 0.1\<close> and \<open>3.7 + 0.1\<close> are doubles above \<open>3.3\<close>
  and \<open>3.8\<close>, so the samples at \<open>3.3\<close> and \<open>3.8\<close> come too soon. And the window end is
  the double sum the trigger stored, not \<open>T + P\<close>: with \<open>T = 0.1\<close> and \<open>P = 0.2\<close> the
  sample at \<open>0.30000000000000004\<close> is later than \<open>T + P\<close> and is stored.
\<close>

theorem C2_rate_limit_drops_sample_inside_window:
  "EDRBuffer_init ''images'' ''front'' 2 1 10 = Inr front_new
   \<and> EDRBuffer_on_event_trigger front_new 3 = Inr front_window
   \<and> items (postevent_buffer (EDRBuffer_on_data front_window (fl (31 / 10)) 1))
       = [(fl (31 / 10), 1)]
   \<and> fl (63 / 20) \<le> 3 + 1
   \<and> items (postevent_buffer
        (EDRBuffer_on_data (EDRBuffer_on_data front_window (fl (31 / 10)) 1) (fl (63 / 20)) 2))
       = [(fl (31 / 10), 1)]
   \<and> items (postevent_buffer (feed front_window (tenths 31 43)))
       = tenths 31 33 @ tenths 34 38 @ tenths 39 41
   \<and> length (tenths 31 33 @ tenths 34 38 @ tenths 39 41) = 8
   \<and> EDRBuffer_init ''images'' ''front'' 2 (fl (1 / 5)) 10 = Inr (front_at 2 (fl (1 / 5)) 10 20)
   \<and> fl (1 / 10) + fl (1 / 5) < float_add (fl (1 / 10)) (fl (1 / 5))
   \<and> (case EDRBuffer_on_event_trigger (front_at 2 (fl (1 / 5)) 10 20) (fl (1 / 10)) of
         Inl e \<Rightarrow> Inl e
       | Inr b1 \<Rightarrow>
           Inr (items (postevent_buffer
                  (EDRBuffer_on_data b1 (float_add (fl (1 / 10)) (fl (1 / 5))) 1))))
       = Inr [(float_add (fl (1 / 10)) (fl (1 / 5)), 1)]"
proof -
  have a: "items (postevent_buffer (EDRBuffer_on_data front_window (fl (31 / 10)) 1))
       = [(fl (31 / 10), 1)]"
    "fl (63 / 20) \<le> 3 + 1"
    "items (postevent_buffer
        (EDRBuffer_on_data (EDRBuffer_on_data front_window (fl (31 / 10)) 1) (fl (63 / 20)) 2))
       = [(fl (31 / 10), 1)]"
    by (simp_all add: front_window_def front_new_def on_data_eval float_eval)
  have l: "length (tenths 31 33 @ tenths 34 38 @ tenths 39 41) = 8"
    by (simp add: tenths_def)
  have i: "EDRBuffer_init ''images'' ''front'' 2 (fl (1 / 5)) 10
             = Inr (front_at 2 (fl (1 / 5)) 10 20)"
    by (simp add: init_eval front_at_def float_mul_def fl_eval)
  have e: "fl (1 / 10) + fl (1 / 5) < float_add (fl (1 / 10)) (fl (1 / 5))"
    by (simp add: float_eval)
  have w: "(case EDRBuffer_on_event_trigger (front_at 2 (fl (1 / 5)) 10 20) (fl (1 / 10)) of
         Inl e \<Rightarrow> Inl e
       | Inr b1 \<Rightarrow>
           Inr (items (postevent_buffer
                  (EDRBuffer_on_data b1 (float_add (fl (1 / 10)) (fl (1 / 5))) 1))))
       = Inr [(float_add (fl (1 / 10)) (fl (1 / 5)), 1)]"
    by (simp add: EDRBuffer_on_event_trigger_def front_at_def on_data_eval float_eval)
  have s: "items (postevent_buffer (feed front_window (tenths 31 43)))
       = tenths 31 33 @ tenths 34 38 @ tenths 39 41"
    by (simp add: window_feed)
  from init_front trigger_front a s l i e w show ?thesis
    by (intro conjI) assumption+
qed

text \<open>
  C2 (amended): a buffer is constructed with post-event duration \<open>q\<close>, fed, triggered at
  \<open>T\<close> and fed again; its window end is the double sum of \<open>T\<close> and \<open>q\<close> that the trigger
  stored. Then an \<^verbatim>\<open>on_data(t, d)\<close> call with \<open>t\<close> not after the window end and not
  earlier than the next allowed timestamp appends \<open>(t, d)\<close> to the post-event queue and
  leaves the ring alone, and a call with \<open>t\<close> after the window end leaves the buffer, so
  both queues, unchanged. In the scenario (2 s before, 1 s after, 10 Hz, trigger at
  \<open>t = 3\<close>, samples at the doubles \<open>3.1, ..., 4.2\<close>) the post-event queue ends with
  exactly the eight samples at \<open>3.1, 3.2, 3.4, 3.5, 3.6, 3.7, 3.9, 4.0\<close>, and the samples
  at \<open>4.1\<close> and \<open>4.2\<close> change nothing.
\<close>

theorem C2_post_event_window:
  assumes "EDRBuffer_init st sid p q r = Inr bi"
    and "EDRBuffer_on_event_trigger (feed bi before) T = Inr b1"
  shows "(t \<le> float_add T q \<and> next_allows (feed b1 after) t \<longrightarrow>
            items (postevent_buffer (EDRBuffer_on_data (feed b1 after) t d))
              = items (postevent_buffer (feed b1 after)) @ [(t, d)]
          \<and> preevent_buffer (EDRBuffer_on_data (feed b1 after) t d)
              = preevent_buffer (feed b1 after))
       \<and> (float_add T q < t \<longrightarrow> EDRBuffer_on_data (feed b1 after) t d = feed b1 after)
       \<and> (case EDRBuffer_init ''images'' ''front'' 2 1 10 of
             Inl e \<Rightarrow> Inl e
           | Inr bi \<Rightarrow>
               (case EDRBuffer_on_event_trigger bi 3 of
                  Inl e \<Rightarrow> Inl e
                | Inr b1 \<Rightarrow>
                    Inr (items (postevent_buffer (feed b1 (tenths 31 43))),
                         feed b1 (tenths 31 43) = feed b1 (tenths 31 41))))
           = Inr (tenths 31 33 @ tenths 34 38 @ tenths 39 41, True)"
  using post_event_window [OF assms, of t after d] post_event_scenario
  by (simp only: simp_thms)

theorem C2_post_event_window_witness:
  "EDRBuffer_init ''images'' ''front'' 2 1 10 = Inr front_new
   \<and> EDRBuffer_on_event_trigger (feed front_new []) 3 = Inr front_window
   \<and> (4 :: real) \<le> float_add 3 1
   \<and> next_allows (feed front_window (tenths 31 40)) 4
   \<and> items (postevent_buffer (EDRBuffer_on_data (feed front_window (tenths 31 40)) 4 40))
       = (tenths 31 33 @ tenths 34 38 @ tenths 39 40) @ [(4, 40)]
   \<and> float_add 3 1 < fl (41 / 10)
   \<and> EDRBuffer_on_data (feed front_window (tenths 31 41)) (fl (41 / 10)) 41
       = feed front_window (tenths 31 41)"
proof -
  have t: "EDRBuffer_on_event_trigger (feed front_new []) 3 = Inr front_window"
    by (simp add: trigger_front)
  have h: "(4 :: real) \<le> float_add 3 1" "float_add 3 1 < fl (41 / 10)"
    by (simp_all add: float_eval)
  have n: "next_allows (feed front_window (tenths 31 40)) 4"
    unfolding window_feed_40 by (simp add: next_allows_def front_window_def front_new_def)
  have i: "items (postevent_buffer (feed front_window (tenths 31 40)))
             = tenths 31 33 @ tenths 34 38 @ tenths 39 40"
    by (simp add: window_feed_40)
  show ?thesis
    using C2_post_event_window
            [of "''images''" "''front''" 2 1 10 front_new "[]" 3 front_window
                4 "tenths 31 40" 40]
          C2_post_event_window
            [of "''images''" "''front''" 2 1 10 front_new "[]" 3 front_window
                "fl (41 / 10)" "tenths 31 41" 41]
          init_front t h n i
    by (simp del: feed_Cons feed_Nil)
qed

subsection \<open>Evaluating the number formats\<close>

lemma replicate_numeral: "replicate (numeral v) x = x # replicate (numeral v - 1) x"
  by (simp add: numeral_eq_Suc)

lemma str_nat_numeral:
  "str_nat (numeral k) =
     (if numeral k < (10::nat) then [digit_char (numeral k)]
      else str_nat (numeral k div 10) @ [digit_char (numeral k mod 10)])"
  by (rule str_nat.simps)

lemma str_nat_small: "str_nat 0 = ''0''" "str_nat 1 = ''1''" "str_nat (Suc 0) = ''1''"
  by (simp_all add: str_nat.simps digit_char_def)

lemmas format_eval = format_19_8f_def format_plus_010_8f_def fixed8_def round_half_even_def
  Let_def digit_char_def replicate_numeral str_nat_numeral str_nat_small

lemmas path_eval = os_path_join_def path_join2_def

subsection \<open>C3: the saving flag after a flush\<close>

text \<open>With an environment in which every file operation succeeds, a flush of a triggered
  buffer writes exactly \<open>buffer_files\<close> and returns with the saving flag cleared.\<close>

lemma save_items_ok:
  assumes "event_timestamp b = Some ev"
  shows "save_items io_ok b (\<lambda>t. Inr (P t)) path extn its fs
       = Return (fs @ map (frame_effect b ev path extn) (filter (\<lambda>item. P (fst item)) its))"
  using assms
  by (induction its arbitrary: fs)
     (simp_all add: EDRBuffer_save_data_item_def perform_def io_ok_def frame_effect_def Let_def)

lemma buffer_save_ok:
  assumes "buffer_triggered b"
  shows "EDRBuffer_save_data io_ok b base_path extn fs
       = Return (b\<lparr>saving := False\<rparr>, fs @ buffer_files b base_path extn)"
proof -
  from assms obtain ev st en where
    t: "event_timestamp b = Some ev" "start_timestamp b = Some st" "end_timestamp b = Some en"
    by (auto simp add: buffer_triggered_def)
  let ?locked = "b\<lparr>saving := True\<rparr>"
  have ev1: "event_timestamp ?locked = Some ev" using t by simp
  have fe: "frame_effect ?locked = frame_effect b"
    by (simp add: frame_effect_def fun_eq_iff)
  show ?thesis
    by (simp add: EDRBuffer_save_data_def Let_def perform_def io_ok_def t py_ge_def py_le_def
          save_items_ok [OF ev1] fe buffer_files_def)
qed

text \<open>
  C3 (the saving flag is false after every \<^verbatim>\<open>save_data\<close> call, also a failed one)
  does not hold of the code. The buffer \<^verbatim>\<open>front\<close> is constructed, accepts a sample at
  \<open>t = 9.5\<close> and is triggered at \<open>t = 10\<close>. The flush makes the folder and then the
  payload's \<^verbatim>\<open>save_to_disk\<close> raises: \<^verbatim>\<open>save_data\<close> is left with \<open>saving = True\<close>,
  and the sample at \<open>t = 10.5\<close>, which the buffer would have accepted before the flush,
  is dropped. The same happens with no help from the disk when the buffer was never
  triggered: the comparison of a timestamp with the window start \<^verbatim>\<open>None\<close> raises.
\<close>

theorem C3_failed_save_leaves_buffer_locked:
  "(case EDRBuffer_init ''images'' ''front'' 2 1 10 of
      Inl e \<Rightarrow> Inl e
    | Inr b \<Rightarrow> EDRBuffer_on_event_trigger (EDRBuffer_on_data b (19 / 2) 7) 10)
     = Inr (front_idle\<lparr>event_timestamp := Some 10, start_timestamp := Some 8,
                       end_timestamp := Some 11\<rparr>)
   \<and> EDRBuffer_save_data io_no_frames
        (front_idle\<lparr>event_timestamp := Some 10, start_timestamp := Some 8,
                    end_timestamp := Some 11\<rparr>) ''/data/e'' ''.png'' []
     = Raise OSError
         (front_idle\<lparr>event_timestamp := Some 10, start_timestamp := Some 8,
                     end_timestamp := Some 11, saving := True\<rparr>,
          [MakeDirs ''/data/e/images/front''])
   \<and> EDRBuffer_on_data
        (front_idle\<lparr>event_timestamp := Some 10, start_timestamp := Some 8,
                    end_timestamp := Some 11, saving := True\<rparr>) (21 / 2) 8
     = front_idle\<lparr>event_timestamp := Some 10, start_timestamp := Some 8,
                  end_timestamp := Some 11, saving := True\<rparr>
   \<and> accepts (front_idle\<lparr>event_timestamp := Some 10, start_timestamp := Some 8,
                  end_timestamp := Some 11\<rparr>) (21 / 2)
   \<and> EDRBuffer_save_data io_ok front_idle ''/data/e'' ''.png'' []
     = Raise TypeError (front_idle\<lparr>saving := True\<rparr>, [MakeDirs ''/data/e/images/front''])"
  by (simp add: init_eval on_data_eval EDRBuffer_on_event_trigger_def front_idle_def
        front_new_def EDRBuffer_save_data_def perform_def io_no_frames_def io_ok_def py_ge_def
        EDRBuffer_save_data_item_def path_eval accepts_def float_eval)

subsection \<open>C10: the file name of a sample\<close>

text \<open>
  C10: \<^verbatim>\<open>_save_data_item\<close> on a sample \<open>(t, d)\<close> of a buffer whose event timestamp is
  \<open>ev\<close> saves the payload under the name made of the sensor id and an underscore (both
  left out when the id is empty), the timestamp in format \<^verbatim>\<open>19.8f\<close>, an underscore, the
  offset \<open>t - ev\<close> (the double difference) in format \<^verbatim>\<open>+010.8f\<close>, and the extension;
  the offset always starts with its sign, \<^verbatim>\<open>-\<close> when the sample is earlier than the
  event and \<^verbatim>\<open>+\<close> otherwise.
\<close>

theorem C10_frame_filename:
  assumes "event_timestamp b = Some ev"
  shows "EDRBuffer_save_data_item io b (t, d) path extn fs
           = perform io
               (SaveToDisk d
                  (os_path_join path
                     [(if sensor_id b = [] then [] else sensor_id b @ ''_'')
                      @ format_19_8f t @ ''_'' @ format_plus_010_8f (float_sub t ev) @ extn])) fs
       \<and> hd (format_plus_010_8f (float_sub t ev)) = (if t < ev then CHR ''-'' else CHR ''+'')"
proof -
  have "float_sub t ev < 0 \<longleftrightarrow> t < ev"
    by (simp add: float_sub_def fl_less_zero_iff)
  then show ?thesis
    using assms
    by (simp add: EDRBuffer_save_data_item_def frame_filename_def format_plus_010_8f_def Let_def)
qed

theorem C10_frame_filename_witness:
  "event_timestamp (front_event\<lparr>sensor_id := []\<rparr>) = Some 10
   \<and> EDRBuffer_save_data_item io_ok (front_event\<lparr>sensor_id := []\<rparr>) (19 / 2, 7)
        ''/data/e/images/'' ''.png'' []
      = Inr [SaveToDisk 7 ''/data/e/images/         9.50000000_-0.50000000.png'']
   \<and> event_timestamp front_event = Some 10
   \<and> EDRBuffer_save_data_item io_ok front_event (21 / 2, 8) ''/data/e/images/front'' ''.png'' []
      = Inr [SaveToDisk 8 ''/data/e/images/front/front_        10.50000000_+0.50000000.png'']"
  using C10_frame_filename [of "front_event\<lparr>sensor_id := []\<rparr>" 10 io_ok "19 / 2" 7
                               "''/data/e/images/''" "''.png''" "[]"]
        C10_frame_filename [of front_event 10 io_ok "21 / 2" 8
                               "''/data/e/images/front''" "''.png''" "[]"]
  by (simp add: front_event_def front_idle_def front_new_def perform_def io_ok_def
        format_eval path_eval float_eval)

section \<open>Properties of the recorder\<close>

subsection \<open>C1: the first trigger wins\<close>

lemma trigger_sensors_ok:
  "list_all untriggered ss \<Longrightarrow>
   \<exists>ss'. trigger_sensors ts ss = Return ss' \<and>
         list_all2 (\<lambda>s s'. EDRSensor_on_event_trigger s ts = Inr s') ss ss'"
proof (induction ss)
  case Nil
  then show ?case by simp
next
  case (Cons s ss)
  then obtain ss' where ih: "trigger_sensors ts ss = Return ss'"
      "list_all2 (\<lambda>s s'. EDRSensor_on_event_trigger s ts = Inr s') ss ss'"
    by auto
  from Cons.prems obtain s' where s: "EDRSensor_on_event_trigger s ts = Inr s'"
    by (auto simp add: untriggered_def EDRSensor_on_event_trigger_def EDRBuffer_on_event_trigger_def)
  show ?case using ih s by simp
qed

text \<open>
  C1: on a triggered recorder \<^verbatim>\<open>on_event_trigger\<close> returns with the recorder, and so
  every sensor, exactly as it was. On an untriggered recorder it sets \<open>triggered\<close>, the
  event timestamp and the reason (these three are written before the sensors are visited,
  so they hold however the call ends); and when no sensor buffer holds an event, which is
  what the assertion in \<^verbatim>\<open>EDRBuffer.on_event_trigger\<close> demands, the call returns, every
  sensor of the list is the result of its own \<^verbatim>\<open>on_event_trigger\<close> with that timestamp,
  and a second call changes nothing.
\<close>

theorem C1_on_event_trigger:
  fixes e :: "'d EDR"
  shows "(triggered e \<longrightarrow> EDR_on_event_trigger e now rsn = Return e)
  \<and> (\<not> triggered e \<longrightarrow>
        triggered (state_of (EDR_on_event_trigger e now rsn))
      \<and> edr_event_timestamp (state_of (EDR_on_event_trigger e now rsn)) = Some now
      \<and> reason (state_of (EDR_on_event_trigger e now rsn)) = rsn)
  \<and> (\<not> triggered e \<and> list_all untriggered (sensors e) \<longrightarrow>
        (\<exists>ss'. EDR_on_event_trigger e now rsn
                 = Return \<lparr>sensors = ss', triggered = True,
                           edr_event_timestamp = Some now, reason = rsn\<rparr>
              \<and> list_all2 (\<lambda>s s'. EDRSensor_on_event_trigger s now = Inr s') (sensors e) ss'
              \<and> EDR_on_event_trigger
                   \<lparr>sensors = ss', triggered = True,
                    edr_event_timestamp = Some now, reason = rsn\<rparr> later rsn'
                 = Return \<lparr>sensors = ss', triggered = True,
                           edr_event_timestamp = Some now, reason = rsn\<rparr>))"
proof (intro conjI impI)
  assume "triggered e"
  then show "EDR_on_event_trigger e now rsn = Return e"
    by (simp add: EDR_on_event_trigger_def has_triggered_def)
next
  assume n: "\<not> triggered e"
  show "triggered (state_of (EDR_on_event_trigger e now rsn))"
    using n by (simp add: EDR_on_event_trigger_def has_triggered_def state_of_def Let_def
                  split: outcome.splits)
  show "edr_event_timestamp (state_of (EDR_on_event_trigger e now rsn)) = Some now"
    using n by (simp add: EDR_on_event_trigger_def has_triggered_def state_of_def Let_def
                  split: outcome.splits)
  show "reason (state_of (EDR_on_event_trigger e now rsn)) = rsn"
    using n by (simp add: EDR_on_event_trigger_def has_triggered_def state_of_def Let_def
                  split: outcome.splits)
next
  assume a: "\<not> triggered e \<and> list_all untriggered (sensors e)"
  then obtain ss' where ss: "trigger_sensors now (sensors e) = Return ss'"
      "list_all2 (\<lambda>s s'. EDRSensor_on_event_trigger s now = Inr s') (sensors e) ss'"
    using trigger_sensors_ok by blast
  show "\<exists>ss'. EDR_on_event_trigger e now rsn
                 = Return \<lparr>sensors = ss', triggered = True,
                           edr_event_timestamp = Some now, reason = rsn\<rparr>
              \<and> list_all2 (\<lambda>s s'. EDRSensor_on_event_trigger s now = Inr s') (sensors e) ss'
              \<and> EDR_on_event_trigger
                   \<lparr>sensors = ss', triggered = True,
                    edr_event_timestamp = Some now, reason = rsn\<rparr> later rsn'
                 = Return \<lparr>sensors = ss', triggered = True,
                           edr_event_timestamp = Some now, reason = rsn\<rparr>"
    using a ss
    by (intro exI [of _ ss']) (simp add: EDR_on_event_trigger_def has_triggered_def Let_def)
qed

theorem C1_on_event_trigger_witness:
  "triggered \<lparr>sensors = [camera front_event], triggered = True,
             edr_event_timestamp = Some 10, reason = ''manual''\<rparr>
   \<and> EDR_on_event_trigger
        \<lparr>sensors = [camera front_event], triggered = True,
         edr_event_timestamp = Some 10, reason = ''manual''\<rparr> (41 / 4) ''near miss''
      = Return \<lparr>sensors = [camera front_event], triggered = True,
                edr_event_timestamp = Some 10, reason = ''manual''\<rparr>
   \<and> \<not> triggered \<lparr>sensors = [camera front_idle], triggered = False,
             edr_event_timestamp = None, reason = []\<rparr>
   \<and> list_all untriggered [camera front_idle]
   \<and> EDR_on_event_trigger
        \<lparr>sensors = [camera front_idle], triggered = False,
         edr_event_timestamp = None, reason = []\<rparr> 10 ''manual''
      = Return \<lparr>sensors = [camera (front_idle\<lparr>event_timestamp := Some 10,
                                start_timestamp := Some 8, end_timestamp := Some 11\<rparr>)],
                triggered = True, edr_event_timestamp = Some 10, reason = ''manual''\<rparr>"
  using C1_on_event_trigger
          [of "\<lparr>sensors = [camera front_event], triggered = True,
                edr_event_timestamp = Some 10, reason = ''manual''\<rparr>" "41 / 4" "''near miss''"]
        C1_on_event_trigger
          [of "\<lparr>sensors = [camera front_idle], triggered = False,
                edr_event_timestamp = None, reason = []\<rparr>" 10 "''manual''"]
  by (simp add: EDR_on_event_trigger_def has_triggered_def Let_def untriggered_def camera_def
        EDRSensor_on_event_trigger_def EDRBuffer_on_event_trigger_def front_idle_def
        front_new_def float_eval)

subsection \<open>C9: saving an untriggered recorder\<close>

text \<open>In every reachable state the flag \<open>triggered\<close> says whether an event timestamp is
  recorded.\<close>

lemma reachable_timestamp:
  "reachable e \<Longrightarrow> triggered e = (edr_event_timestamp e \<noteq> None)"
proof (induction rule: reachable.induct)
  case init
  show ?case by (simp add: EDR_init_def)
next
  case (add_sensor e s)
  then show ?case by (simp add: add_sensor_def)
next
  case (sensor_data e ss)
  then show ?case by simp
next
  case (clear e)
  then show ?case by (simp add: EDR_clear_def EDR_clear_event_def has_triggered_def)
next
  case (clear_event e)
  then show ?case by (simp add: EDR_clear_event_def has_triggered_def)
next
  case (on_event_trigger e now rsn)
  then show ?case
    by (simp add: EDR_on_event_trigger_def has_triggered_def state_of_def Let_def
          split: outcome.splits)
next
  case (save_data e date_time io base_path fs)
  then show ?case
    by (auto simp add: EDR_save_data_def state_of_def Let_def EDR_clear_event_def
          has_triggered_def split: option.splits sum.splits outcome.splits)
qed

text \<open>
  C9: when \<^verbatim>\<open>save_data\<close> is called on a recorder that is not triggered, its event
  timestamp is \<^verbatim>\<open>None\<close> and the call raises \<^verbatim>\<open>TypeError\<close>, whatever the environment;
  the recorder with all its sensor buffers and the file system are exactly what they
  were: no folder, no file, no buffer touched.
\<close>

theorem C9_save_data_untriggered_raises:
  assumes "reachable e" and "\<not> has_triggered e"
  shows "EDR_save_data date_time io e base_path fs = Raise TypeError (e, fs)"
  using reachable_timestamp [OF assms(1)] assms(2)
  by (simp add: EDR_save_data_def has_triggered_def)

theorem C9_save_data_untriggered_raises_witness:
  "reachable (add_sensor EDR_init (camera front_idle))
   \<and> \<not> has_triggered (add_sensor EDR_init (camera front_idle))
   \<and> EDR_save_data (\<lambda>t. Inr ''2022-06-01-12-00-10'') io_ok
        (add_sensor EDR_init (camera front_idle)) ''/data'' []
      = Raise TypeError
          (\<lparr>sensors = [camera front_idle], triggered = False,
            edr_event_timestamp = None, reason = []\<rparr>, [])"
  using C9_save_data_untriggered_raises
          [of "add_sensor EDR_init (camera front_idle)"
              "\<lambda>t. Inr ''2022-06-01-12-00-10''" io_ok "''/data''" "[]"]
        reachable.add_sensor [OF reachable.init, of "camera front_idle"]
  by (simp add: add_sensor_def EDR_init_def has_triggered_def)

subsection \<open>C8: saving a triggered recorder\<close>

lemma save_sensors_ok:
  "list_all (\<lambda>s. buffer_triggered (edr_buffer s)) ss \<Longrightarrow>
   save_sensors io_ok path ss fs = Return (map saved ss, fs @ concat (map (sensor_files path) ss))"
  by (induction ss arbitrary: fs)
     (simp_all add: EDRSensor_save_data_def buffer_save_ok saved_def sensor_files_def)

text \<open>
  C8: for a triggered recorder whose event timestamp formats as \<open>dt\<close>, whose sensor
  buffers are all triggered and whose file operations all succeed, \<^verbatim>\<open>save_data\<close>
  returns; it has made the folder \<open>base_path/dt\<close>, written the reason to
  \<^verbatim>\<open>reason.txt\<close> in it, then flushed the sensors one after the other in list order, and
  nothing else; the recorder it leaves is the result of \<^verbatim>\<open>clear_event\<close>: not triggered,
  no event timestamp, empty reason, every sensor buffer cleared.
\<close>

theorem C8_save_data_triggered:
  assumes "triggered e" and "edr_event_timestamp e = Some ts" and "date_time ts = Inr dt"
    and "list_all (\<lambda>s. buffer_triggered (edr_buffer s)) (sensors e)"
  shows "\<exists>e'. EDR_save_data date_time io_ok e base_path fs =
           Return (e',
             fs @ [MakeDirs (os_path_join base_path [dt]),
                   WriteFile (os_path_join (os_path_join base_path [dt]) [''reason.txt''])
                     (reason e)]
                @ concat (map (sensor_files (os_path_join base_path [dt])) (sensors e)))
         \<and> e' = EDR_clear_event (e\<lparr>sensors := map saved (sensors e)\<rparr>)
         \<and> \<not> has_triggered e' \<and> edr_event_timestamp e' = None \<and> reason e' = []
         \<and> sensors e' = map (EDRSensor_clear_event \<circ> saved) (sensors e)"
  using assms
  by (simp add: EDR_save_data_def Let_def perform_def io_ok_def [of "MakeDirs _"]
        io_ok_def [of "WriteFile _ _"] save_sensors_ok EDR_clear_event_def has_triggered_def)

theorem C8_save_data_triggered_witness:
  "triggered \<lparr>sensors = [camera front_event], triggered = True,
             edr_event_timestamp = Some 10, reason = ''manual''\<rparr>
   \<and> list_all (\<lambda>s. buffer_triggered (edr_buffer s)) [camera front_event]
   \<and> EDR_save_data (\<lambda>t. Inr ''2022-06-01-12-00-10'') io_ok
        \<lparr>sensors = [camera front_event], triggered = True,
         edr_event_timestamp = Some 10, reason = ''manual''\<rparr> ''/data'' []
      = Return
          (\<lparr>sensors = [camera front_new], triggered = False,
            edr_event_timestamp = None, reason = []\<rparr>,
           [MakeDirs ''/data/2022-06-01-12-00-10'',
            WriteFile ''/data/2022-06-01-12-00-10/reason.txt'' ''manual'',
            MakeDirs ''/data/2022-06-01-12-00-10/images/front'',
            SaveToDisk 7
              ''/data/2022-06-01-12-00-10/images/front/front_         9.50000000_-0.50000000.png'',
            SaveToDisk 8
              ''/data/2022-06-01-12-00-10/images/front/front_        10.50000000_+0.50000000.png''])"
  using C8_save_data_triggered
          [of "\<lparr>sensors = [camera front_event], triggered = True,
                edr_event_timestamp = Some 10, reason = ''manual''\<rparr>" 10
              "\<lambda>t. Inr ''2022-06-01-12-00-10''" "''2022-06-01-12-00-10''" "''/data''" "[]"]
  by (simp add: buffer_triggered_def camera_def front_event_def front_idle_def front_new_def
        EDR_clear_event_def has_triggered_def saved_def EDRSensor_clear_event_def
        EDRBuffer_clear_def deque_clear_def sensor_files_def buffer_files_def frame_effect_def
        frame_filename_def format_eval path_eval float_eval)

section \<open>Properties of the collision test\<close>

subsection \<open>C6: the separating-axis test\<close>

lemma py_min_Min: "xs \<noteq> [] \<Longrightarrow> py_min xs = Inr (Min (set xs))"
  by (cases xs) (simp_all add: Min.set_eq_fold [symmetric])

lemma py_max_Max: "xs \<noteq> [] \<Longrightarrow> py_max xs = Inr (Max (set xs))"
  by (cases xs) (simp_all add: Max.set_eq_fold [symmetric])

lemma project_range:
  "poly \<noteq> [] \<Longrightarrow> project poly axis = Inr (proj_lo poly axis, proj_hi poly axis)"
  by (simp add: project_def Let_def py_min_Min py_max_Max proj_lo_def proj_hi_def)

lemma proj_lo_le_hi: "poly \<noteq> [] \<Longrightarrow> proj_lo poly axis \<le> proj_hi poly axis"
  by (simp add: proj_lo_def proj_hi_def)

lemma overlap_ranges:
  "poly1 \<noteq> [] \<Longrightarrow> poly2 \<noteq> [] \<Longrightarrow>
   overlap (proj_lo poly1 axis, proj_hi poly1 axis) (proj_lo poly2 axis, proj_hi poly2 axis)
     = ranges_overlap poly1 poly2 axis"
  using proj_lo_le_hi [of poly1 axis] proj_lo_le_hi [of poly2 axis]
  by (simp add: overlap_def ranges_overlap_def min_def max_def)

lemma loop_all:
  "poly1 \<noteq> [] \<Longrightarrow> poly2 \<noteq> [] \<Longrightarrow>
   has_collided_loop poly1 poly2 axes = Inr (\<forall>axis \<in> set axes. ranges_overlap poly1 poly2 axis)"
  by (induction axes) (simp_all add: project_range overlap_ranges)

lemma poly_to_edges_sequence: "poly_to_edges poly = edges_in_sequence poly"
proof (cases poly)
  case Nil
  then show ?thesis by (simp add: poly_to_edges_def edges_in_sequence_def)
next
  case (Cons a as)
  have len: "length (poly_to_edges poly) = length (edges_in_sequence poly)"
    by (simp add: poly_to_edges_def edges_in_sequence_def)
  have "poly_to_edges poly ! i = edges_in_sequence poly ! i" if "i < length poly" for i
  proof -
    have "rotate1 poly ! i = poly ! ((i + 1) mod length poly)"
      using that by (simp add: nth_rotate1)
    then show ?thesis
      using that by (simp add: poly_to_edges_def edges_in_sequence_def)
  qed
  then show ?thesis
    using len by (intro nth_equalityI) (simp_all add: poly_to_edges_def)
qed

text \<open>
  C6: for two polygons with at least one vertex each, \<^verbatim>\<open>has_collided\<close> runs its loop
  over the orthogonals of the edges of the first polygon, in sequence, followed by those
  of the second; it returns \<open>True\<close> exactly when the projection ranges of the two
  polygons overlap on every one of these axes; and the loop returns \<open>False\<close> at the first
  axis on which they do not, whatever axes come after it. Two axis-aligned unit squares
  centred 0.5 apart on the x-axis collide, the same squares centred 5 apart do not.
\<close>

theorem C6_has_collided:
  assumes "poly1 \<noteq> []" and "poly2 \<noteq> []"
  shows "has_collided poly1 poly2
           = has_collided_loop poly1 poly2
               (map orthogonal (edges_in_sequence poly1 @ edges_in_sequence poly2))
       \<and> has_collided poly1 poly2
           = Inr (\<forall>axis \<in> set (map orthogonal (edges_in_sequence poly1 @ edges_in_sequence poly2)).
                    ranges_overlap poly1 poly2 axis)
       \<and> ((\<forall>a \<in> set before. ranges_overlap poly1 poly2 a) \<and> \<not> ranges_overlap poly1 poly2 axis
            \<longrightarrow> has_collided_loop poly1 poly2 (before @ axis # rest) = Inr False)
       \<and> has_collided (unit_square cx cy) (unit_square (cx + 1 / 2) cy) = Inr True
       \<and> has_collided (unit_square cx cy) (unit_square (cx + 5) cy) = Inr False"
proof (intro conjI impI)
  show e: "has_collided poly1 poly2
           = has_collided_loop poly1 poly2
               (map orthogonal (edges_in_sequence poly1 @ edges_in_sequence poly2))"
    by (simp add: has_collided_def Let_def poly_to_edges_sequence)
  show "has_collided poly1 poly2
           = Inr (\<forall>axis \<in> set (map orthogonal (edges_in_sequence poly1 @ edges_in_sequence poly2)).
                    ranges_overlap poly1 poly2 axis)"
    unfolding e by (rule loop_all [OF assms])
  show "has_collided_loop poly1 poly2 (before @ axis # rest) = Inr False"
    if "(\<forall>a \<in> set before. ranges_overlap poly1 poly2 a) \<and> \<not> ranges_overlap poly1 poly2 axis"
    using that by (simp add: loop_all [OF assms])
  show "has_collided (unit_square cx cy) (unit_square (cx + 1 / 2) cy) = Inr True"
    by (simp add: has_collided_def poly_to_edges_def unit_square_def edge_vector_def
          orthogonal_def project_def dot_product_def overlap_def Let_def)
  show "has_collided (unit_square cx cy) (unit_square (cx + 5) cy) = Inr False"
    by (simp add: has_collided_def poly_to_edges_def unit_square_def edge_vector_def
          orthogonal_def project_def dot_product_def overlap_def Let_def)
qed

theorem C6_has_collided_witness:
  "unit_square 0 0 \<noteq> [] \<and> unit_square 5 0 \<noteq> []
   \<and> ranges_overlap (unit_square 0 0) (unit_square 5 0) (0, -1)
   \<and> \<not> ranges_overlap (unit_square 0 0) (unit_square 5 0) (1, 0)
   \<and> map orthogonal (edges_in_sequence (unit_square 0 0) @ edges_in_sequence (unit_square 5 0))
       = [(0, -1), (1, 0), (0, 1), (-1, 0), (0, -1), (1, 0), (0, 1), (-1, 0)]
   \<and> has_collided_loop (unit_square 0 0) (unit_square 5 0)
        ([(0, -1)] @ (1, 0) # [(0, 1), (-1, 0), (0, -1), (1, 0), (0, 1), (-1, 0)]) = Inr False
   \<and> has_collided (unit_square 0 0) (unit_square 5 0) = Inr False
   \<and> has_collided (unit_square 0 0) (unit_square (1 / 2) 0) = Inr True"
  using C6_has_collided [of "unit_square 0 0" "unit_square 5 0" "[(0, -1)]" "(1, 0)"
                            "[(0, 1), (-1, 0), (0, -1), (1, 0), (0, 1), (-1, 0)]" 0 0]
  by (simp add: ranges_overlap_def proj_lo_def proj_hi_def unit_square_def dot_product_def
        edges_in_sequence_def edge_vector_def orthogonal_def)

end
